theory Spec2Isabelle
  imports Main "HOL-Library.Signed_Division"
begin

section \<open>The test harness of coreos-mantle: harness/harness.go\<close>

text \<open>
  The file defines the type \<^verbatim>\<open>H\<close>, the state of one test (a "unit"), and the functions
  that run a tree of tests: \<^verbatim>\<open>Run\<close>, \<^verbatim>\<open>tRunner\<close>, \<^verbatim>\<open>Parallel\<close>, \<^verbatim>\<open>Fail\<close>, \<^verbatim>\<open>FailNow\<close>,
  \<^verbatim>\<open>SkipNow\<close>, \<^verbatim>\<open>report\<close> and \<^verbatim>\<open>flushToParent\<close>.

  Every function of the file reaches other units only through the \<^verbatim>\<open>parent\<close> pointer
  (and, in the finalizer of \<^verbatim>\<open>tRunner\<close>, the \<^verbatim>\<open>signal\<close> channel of the queued subtests).
  A unit is therefore modelled together with the units above it, as a list:
  the unit itself first, then its parent, its grandparent, and the root last.
  \<^verbatim>\<open>c.parent == nil\<close> is an empty tail, and the empty list stands for a nil \<^verbatim>\<open>*H\<close>.
  A function of the file becomes a function from such a list to the outcome of the
  call and the list as the call leaves it.
\<close>

subsection \<open>Data\<close>

text \<open>Channels are known by a number; \<^verbatim>\<open>make(chan bool)\<close> yields a new one.\<close>

type_synonym chan = nat

text \<open>
  The field \<^verbatim>\<open>w io.Writer\<close>. \<^verbatim>\<open>Run\<close> sets it to \<^verbatim>\<open>indenter{t}\<close>, which writes into the
  \<^verbatim>\<open>output\<close> buffer of the unit that holds the field; the root's writer comes from the
  suite and is kept as the text written to it so far.
\<close>

datatype writer = indenter | external string

text \<open>Of the suite (declared outside this file) the code reads \<^verbatim>\<open>opts.Verbose\<close>.\<close>

record Options =
  Verbose :: bool

record Suite =
  opts :: Options

text \<open>
  The struct \<^verbatim>\<open>H\<close>, without \<^verbatim>\<open>parent\<close> (the tail of the list), the mutex, and the
  context and its cancel function (no function modelled here reads them).
  \<^verbatim>\<open>tap\<close> is \<open>None\<close> for a nil writer and otherwise the text written so far;
  \<^verbatim>\<open>logger\<close> is the prefix of a \<^verbatim>\<open>log.Logger\<close> that writes to \<^verbatim>\<open>output\<close> with
  \<^verbatim>\<open>log.Lshortfile\<close>; \<^verbatim>\<open>start\<close> is an instant and \<^verbatim>\<open>duration\<close> a \<^verbatim>\<open>time.Duration\<close>, both
  in nanoseconds; a queued subtest in \<^verbatim>\<open>sub\<close> is held as its \<^verbatim>\<open>signal\<close> channel, the
  one field the code reads through that pointer.
\<close>

record H =
  "output" :: string
  w :: writer
  tap :: "string option"
  logger :: string
  ran :: bool
  failed :: bool
  skipped :: bool
  finished :: bool
  "done" :: bool
  hasSub :: bool
  suite :: Suite
  level :: int
  name :: string
  start :: int
  duration :: int
  barrier :: chan
  signal :: chan
  sub :: "chan list"
  isParallel :: bool

text \<open>
  How a call ends: it returns a value, it ends the goroutine through
  \<^verbatim>\<open>runtime.Goexit\<close>, it panics, or it never proceeds (blocked in a receive for good).
\<close>

datatype 'a outcome = Returns 'a | Goexit | Panics string | Blocks

definition nil_dereference :: string where
  "nil_dereference = ''runtime error: invalid memory address or nil pointer dereference''"

subsection \<open>setRan and Fail\<close>

text \<open>
  \<^verbatim>\<open>
  func (c *H) setRan() {
      if c.parent != nil { c.parent.setRan() }
      c.mu.Lock(); defer c.mu.Unlock()
      c.ran = true
  }
  \<close>
\<close>

fun setRan :: "H list \<Rightarrow> unit outcome \<times> H list" where
  "setRan [] = (Panics nil_dereference, [])"
| "setRan (c # ps) =
     (case (if ps \<noteq> [] then setRan ps else (Returns (), ps)) of
        (Returns u, ps') \<Rightarrow> (Returns (), c\<lparr>ran := True\<rparr> # ps')
      | (x, ps') \<Rightarrow> (x, c # ps'))"

text \<open>
  \<^verbatim>\<open>
  func (c *H) Fail() {
      if c.parent != nil { c.parent.Fail() }
      c.mu.Lock(); defer c.mu.Unlock()
      if c.done { panic("Fail in goroutine after " + c.name + " has completed") }
      c.failed = true
  }
  \<close>
  A panic of the parent's call leaves this call before the unit's own check.
\<close>

fun Fail :: "H list \<Rightarrow> unit outcome \<times> H list" where
  "Fail [] = (Panics nil_dereference, [])"
| "Fail (c # ps) =
     (case (if ps \<noteq> [] then Fail ps else (Returns (), ps)) of
        (Returns u, ps') \<Rightarrow>
          if done c
          then (Panics (''Fail in goroutine after '' @ name c @ '' has completed''), c # ps')
          else (Returns (), c\<lparr>failed := True\<rparr> # ps')
      | (x, ps') \<Rightarrow> (x, c # ps'))"

text \<open>
  \<^verbatim>\<open>FailNow\<close>: \<^verbatim>\<open>c.Fail(); c.finished = true; runtime.Goexit()\<close>.
  \<^verbatim>\<open>skip\<close> sets \<^verbatim>\<open>c.skipped\<close>, and \<^verbatim>\<open>SkipNow\<close> is
  \<^verbatim>\<open>c.skip(); c.finished = true; runtime.Goexit()\<close>.
\<close>

definition FailNow :: "H list \<Rightarrow> unit outcome \<times> H list" where
  "FailNow ts =
     (case Fail ts of
        (Returns u, c # ps) \<Rightarrow> (Goexit, c\<lparr>finished := True\<rparr> # ps)
      | (x, ts') \<Rightarrow> (x, ts'))"

definition skip :: "H list \<Rightarrow> unit outcome \<times> H list" where
  "skip ts = (case ts of [] \<Rightarrow> (Panics nil_dereference, [])
              | c # ps \<Rightarrow> (Returns (), c\<lparr>skipped := True\<rparr> # ps))"

definition SkipNow :: "H list \<Rightarrow> unit outcome \<times> H list" where
  "SkipNow ts =
     (case skip ts of
        (Returns u, c # ps) \<Rightarrow> (Goexit, c\<lparr>finished := True\<rparr> # ps)
      | (x, ts') \<Rightarrow> (x, ts'))"

text \<open>
  The struct comments the field \<^verbatim>\<open>done\<close> with "Test is finished and all subtests have
  completed". For a unit and the units above it this says: where a unit is done, the
  unit before it in the list, which is a subtest of it, is done.
\<close>

fun subtests_completed :: "H list \<Rightarrow> bool" where
  "subtests_completed (c # p # ps) = ((done p \<longrightarrow> done c) \<and> subtests_completed (p # ps))"
| "subtests_completed ts = True"

subsection \<open>Logging\<close>

definition newline :: char where
  "newline = CHR 0x0A"

text \<open>
  \<^verbatim>\<open>c.logger.Output(3, s)\<close> writes the logger's prefix, the header \<^verbatim>\<open>file:line: \<close> of
  \<^verbatim>\<open>log.Lshortfile\<close> and the text, with a newline added when the text does not end in
  one. The place \<open>loc\<close> of the caller, \<^verbatim>\<open>file:line\<close>, is a parameter.
\<close>

definition log :: "string \<Rightarrow> string \<Rightarrow> H list \<Rightarrow> unit outcome \<times> H list" where
  "log loc s ts =
     (case ts of [] \<Rightarrow> (Panics nil_dereference, [])
      | c # ps \<Rightarrow>
          (Returns (),
           c\<lparr>output := output c @ logger c @ loc @ '': '' @ s @
                 (if s = [] \<or> last s \<noteq> newline then [newline] else [])\<rparr> # ps))"

text \<open>
  \<^verbatim>\<open>Error\<close> and \<^verbatim>\<open>Errorf\<close> are \<^verbatim>\<open>log\<close> then \<^verbatim>\<open>Fail\<close>; \<^verbatim>\<open>Fatal\<close> and \<^verbatim>\<open>Fatalf\<close> are \<^verbatim>\<open>log\<close>
  then \<^verbatim>\<open>FailNow\<close>; \<^verbatim>\<open>Skip\<close> and \<^verbatim>\<open>Skipf\<close> are \<^verbatim>\<open>log\<close> then \<^verbatim>\<open>SkipNow\<close>. The text \<open>s\<close> is
  what \<^verbatim>\<open>fmt.Sprintln\<close> or \<^verbatim>\<open>fmt.Sprintf\<close> made of the arguments.
\<close>

definition Error :: "string \<Rightarrow> string \<Rightarrow> H list \<Rightarrow> unit outcome \<times> H list" where
  "Error loc s ts = (case log loc s ts of (Returns u, ts') \<Rightarrow> Fail ts' | (x, ts') \<Rightarrow> (x, ts'))"

definition Fatal :: "string \<Rightarrow> string \<Rightarrow> H list \<Rightarrow> unit outcome \<times> H list" where
  "Fatal loc s ts = (case log loc s ts of (Returns u, ts') \<Rightarrow> FailNow ts' | (x, ts') \<Rightarrow> (x, ts'))"

definition Skip :: "string \<Rightarrow> string \<Rightarrow> H list \<Rightarrow> unit outcome \<times> H list" where
  "Skip loc s ts = (case log loc s ts of (Returns u, ts') \<Rightarrow> SkipNow ts' | (x, ts') \<Rightarrow> (x, ts'))"

subsection \<open>Writers\<close>

text \<open>
  \<^verbatim>\<open>bytes.IndexByte(b, c)\<close>: the index of the first \<open>c\<close> in \<open>b\<close>, or \<open>-1\<close>.
\<close>

definition IndexByte :: "string \<Rightarrow> char \<Rightarrow> int" where
  "IndexByte b c = (if c \<in> set b then int (length (takeWhile (\<lambda>x. x \<noteq> c) b)) else - 1)"

text \<open>
  \<^verbatim>\<open>
  func (w indenter) Write(b []byte) (n int, err error) {
      n = len(b)
      for len(b) > 0 {
          end := bytes.IndexByte(b, '\n')
          if end == -1 { end = len(b) } else { end++ }
          const indent = "    "
          w.c.output.WriteString(indent)
          w.c.output.Write(b[:end])
          b = b[end:]
      }
      return
  }
  \<close>
  The function below gives the bytes the loop appends to \<^verbatim>\<open>w.c.output\<close>.
\<close>

function indenter_Write :: "string \<Rightarrow> string" where
  "indenter_Write b =
     (if length b > 0
      then (let i = IndexByte b newline;
                e = (if i = - 1 then length b else nat i + 1)
            in ''    '' @ take e b @ indenter_Write (drop e b))
      else [])"
  by pat_completeness auto
termination
  by (relation "measure length") (auto simp: IndexByte_def)

declare indenter_Write.simps [simp del]

text \<open>One \<^verbatim>\<open>Write\<close> call on the writer \<^verbatim>\<open>p.w\<close> of a unit \<open>p\<close>.\<close>

definition Write_w :: "H \<Rightarrow> string \<Rightarrow> H" where
  "Write_w p b =
     (case w p of
        indenter \<Rightarrow> p\<lparr>output := output p @ indenter_Write b\<rparr>
      | external s \<Rightarrow> p\<lparr>w := external (s @ b)\<rparr>)"

subsection \<open>fmtDuration\<close>

text \<open>
  \<^verbatim>\<open>
  func fmtDuration(d time.Duration) string { return fmt.Sprintf("%.2fs", d.Seconds()) }

  func (d Duration) Seconds() float64 {
      sec := d / Second
      nsec := d % Second
      return float64(sec) + float64(nsec)/1e9
  }
  \<close>
  A \<^verbatim>\<open>Duration\<close> is an \<^verbatim>\<open>int64\<close> count of nanoseconds; Go's \<^verbatim>\<open>/\<close> and \<^verbatim>\<open>%\<close> truncate
  towards zero (\<open>sdiv\<close>, \<open>smod\<close>). A finite \<^verbatim>\<open>float64\<close> is kept exactly, as the pair
  \<open>(m, k)\<close> that stands for \<open>m / 2 ^ k\<close>. Every operation of IEEE 754 arithmetic rounds
  the exact result to the nearest number with a 53-bit significand, ties to the even
  one; \<open>nearest_float64 n d\<close> does this for the quotient \<open>n / d\<close> (with \<open>d > 0\<close> and
  \<open>\<bar>n / d\<bar> < 2 ^ 53\<close>, which holds for the seconds of every \<^verbatim>\<open>int64\<close> duration).
  The conversions \<^verbatim>\<open>float64(sec)\<close> and \<^verbatim>\<open>float64(nsec)\<close> are exact.
\<close>

definition Second :: int where
  "Second = 1000000000"

text \<open>The number of binary digits of a positive number.\<close>

function bits :: "int \<Rightarrow> nat" where
  "bits n = (if n \<le> 0 then 0 else Suc (bits (n div 2)))"
  by pat_completeness auto
termination
  by (relation "measure nat") auto

declare bits.simps [simp del]

text \<open>The integer nearest to \<open>n / d\<close>, the even one of two equally near.\<close>

definition round_even :: "int \<Rightarrow> int \<Rightarrow> int" where
  "round_even n d =
     (let q = n div d; r = n mod d
      in if 2 * r < d \<or> (2 * r = d \<and> even q) then q else q + 1)"

definition nearest_float64 :: "int \<Rightarrow> int \<Rightarrow> int \<times> nat" where
  "nearest_float64 n d =
     (if n = 0 then (0, 0)
      else (let a = \<bar>n\<bar>;
                k0 = bits (2 ^ 52 * d) - bits a;
                k = (if 2 ^ 52 * d \<le> a * 2 ^ k0 then k0 else Suc k0)
            in (sgn n * round_even (a * 2 ^ k) d, k)))"

definition Seconds :: "int \<Rightarrow> int \<times> nat" where
  "Seconds d =
     (let sec = d sdiv Second;
          nsec = d smod Second;
          (m, k) = nearest_float64 nsec 1000000000
      in nearest_float64 (sec * 2 ^ k + m) (2 ^ k))"

definition digit :: "int \<Rightarrow> char" where
  "digit n = ''0123456789'' ! nat n"

function decimal :: "int \<Rightarrow> string" where
  "decimal n = (if n < 10 then [digit n] else decimal (n div 10) @ [digit (n mod 10)])"
  by pat_completeness auto
termination
  by (relation "measure nat") auto

declare decimal.simps [simp del]

text \<open>
  \<^verbatim>\<open>fmt.Sprintf("%.2f", f)\<close>: the sign of a negative number, then the exact value rounded
  to hundredths (ties to even), written with all its integer digits and two decimals.
\<close>

definition Sprintf_2f :: "int \<times> nat \<Rightarrow> string" where
  "Sprintf_2f f =
     (case f of (m, k) \<Rightarrow>
        (let c = round_even (100 * \<bar>m\<bar>) (2 ^ k)
         in (if m < 0 then ''-'' else []) @ decimal (c div 100) @ ''.'' @
            [digit (c mod 100 div 10), digit (c mod 10)]))"

definition fmtDuration :: "int \<Rightarrow> string" where
  "fmtDuration d = Sprintf_2f (Seconds d) @ ''s''"

subsection \<open>flushToParent and report\<close>

text \<open>
  \<^verbatim>\<open>
  func (c *H) flushToParent(format string, args ...interface{}) {
      p := c.parent
      p.mu.Lock(); defer p.mu.Unlock()
      fmt.Fprintf(p.w, format, args...)
      if p.tap != nil {
          name := strings.Replace(c.name, "#", "", -1)
          if c.Failed() { fmt.Fprintf(p.tap, "not ok - %s\n", name) }
          else if c.Skipped() { fmt.Fprintf(p.tap, "ok - %s # SKIP\n", name) }
          else { fmt.Fprintf(p.tap, "ok - %s\n", name) }
      }
      c.mu.Lock(); defer c.mu.Unlock()
      io.Copy(p.w, &c.output)
  }
  \<close>
  The first argument of the model is the header, \<^verbatim>\<open>fmt.Sprintf(format, args...)\<close>.
  \<^verbatim>\<open>io.Copy\<close> hands the whole buffer to \<^verbatim>\<open>p.w\<close> and leaves it empty.
\<close>

definition tap_line :: "H \<Rightarrow> string" where
  "tap_line c =
     (let nm = filter (\<lambda>x. x \<noteq> CHR ''#'') (name c)
      in if failed c then ''not ok - '' @ nm @ [newline]
         else if skipped c then ''ok - '' @ nm @ '' # SKIP'' @ [newline]
         else ''ok - '' @ nm @ [newline])"

text \<open>The lines 92 to 101, on the parent \<open>p\<close> for its subtest \<open>c\<close>.\<close>

definition Write_tap :: "H \<Rightarrow> H \<Rightarrow> H" where
  "Write_tap c p =
     (case tap p of
        None \<Rightarrow> p
      | Some written \<Rightarrow> p\<lparr>tap := Some (written @ tap_line c)\<rparr>)"

definition flushToParent :: "string \<Rightarrow> H list \<Rightarrow> unit outcome \<times> H list" where
  "flushToParent header ts =
     (case ts of
        c # p # ps \<Rightarrow>
          (Returns (),
           c\<lparr>output := []\<rparr> # Write_w (Write_tap c (Write_w p header)) (output c) # ps)
      | _ \<Rightarrow> (Panics nil_dereference, ts))"

text \<open>
  \<^verbatim>\<open>
  func (t *H) report() {
      if t.parent == nil { return }
      dstr := fmtDuration(t.duration)
      format := "--- %s: %s (%s)\n"
      if t.Failed() { t.flushToParent(format, "FAIL", t.name, dstr) }
      else if t.suite.opts.Verbose {
          if t.Skipped() { t.flushToParent(format, "SKIP", t.name, dstr) }
          else { t.flushToParent(format, "PASS", t.name, dstr) }
      }
  }
  \<close>
\<close>

definition status_line :: "string \<Rightarrow> string \<Rightarrow> string \<Rightarrow> string" where
  "status_line status nm dstr =
     ''--- '' @ status @ '': '' @ nm @ '' ('' @ dstr @ '')'' @ [newline]"

definition report :: "H list \<Rightarrow> unit outcome \<times> H list" where
  "report ts =
     (case ts of
        [] \<Rightarrow> (Panics nil_dereference, [])
      | [t] \<Rightarrow> (Returns (), [t])
      | t # p # ps \<Rightarrow>
          (let dstr = fmtDuration (duration t)
           in if failed t then flushToParent (status_line ''FAIL'' (name t) dstr) ts
              else if Verbose (opts (suite t))
              then (if skipped t then flushToParent (status_line ''SKIP'' (name t) dstr) ts
                    else flushToParent (status_line ''PASS'' (name t) dstr) ts)
              else (Returns (), ts)))"

subsection \<open>Goroutines, channels and the concurrency gate\<close>

text \<open>
  What a goroutine does to channels and to the suite's gate is recorded, in order, as a
  list of events: \<^verbatim>\<open>t.suite.release()\<close>, \<^verbatim>\<open>t.suite.waitParallel()\<close>, \<^verbatim>\<open>close(ch)\<close> of a
  barrier, a receive from a barrier, a send and a receive on a signal channel, and the
  \<^verbatim>\<open>go tRunner(t, f)\<close> of the unit whose signal channel is given. A function that uses
  them yields its outcome, its events and the list of units. What other goroutines do
  to the units meanwhile is a parameter at the two places where the code waits for
  them: the receive in \<^verbatim>\<open>Run\<close> and the loop over \<^verbatim>\<open>t.sub\<close> in \<^verbatim>\<open>tRunner\<close>.
\<close>

datatype event =
    Release
  | WaitParallel
  | CloseBarrier chan
  | RecvBarrier chan
  | SendSignal chan
  | RecvSignal chan
  | Go_tRunner chan

definition quiet :: "unit outcome \<times> H list \<Rightarrow> unit outcome \<times> event list \<times> H list" where
  "quiet r = (fst r, [], snd r)"

text \<open>Sequencing: the second part runs when the first returns.\<close>

definition andThen ::
  "unit outcome \<times> event list \<times> H list \<Rightarrow> (H list \<Rightarrow> 'a outcome \<times> event list \<times> H list)
   \<Rightarrow> 'a outcome \<times> event list \<times> H list" where
  "andThen r f =
     (case r of
        (Returns u, ev, ts) \<Rightarrow> (case f ts of (x, ev', ts') \<Rightarrow> (x, ev @ ev', ts'))
      | (Goexit, ev, ts) \<Rightarrow> (Goexit, ev, ts)
      | (Panics e, ev, ts) \<Rightarrow> (Panics e, ev, ts)
      | (Blocks, ev, ts) \<Rightarrow> (Blocks, ev, ts))"

subsection \<open>Parallel\<close>

text \<open>
  \<^verbatim>\<open>
  func (t *H) Parallel() {
      if t.isParallel { panic("testing: t.Parallel called multiple times") }
      t.isParallel = true
      t.duration += time.Since(t.start)
      t.parent.sub = append(t.parent.sub, t)
      t.signal <- true   // Release calling test.
      <-t.parent.barrier // Wait for the parent test to complete.
      t.suite.waitParallel()
      t.start = time.Now()
  }
  \<close>
  \<open>now0\<close> and \<open>now1\<close> are the two readings of the clock.
\<close>

definition Parallel :: "int \<Rightarrow> int \<Rightarrow> H list \<Rightarrow> unit outcome \<times> event list \<times> H list" where
  "Parallel now0 now1 ts =
     (case ts of
        [] \<Rightarrow> (Panics nil_dereference, [], [])
      | t # ps \<Rightarrow>
          if isParallel t then (Panics ''testing: t.Parallel called multiple times'', [], ts)
          else (let t1 = t\<lparr>isParallel := True, duration := duration t + (now0 - start t)\<rparr>
                in case ps of
                     [] \<Rightarrow> (Panics nil_dereference, [], [t1])
                   | p # gs \<Rightarrow>
                       (Returns (),
                        [SendSignal (signal t1), RecvBarrier (barrier p), WaitParallel],
                        t1\<lparr>start := now1\<rparr> # p\<lparr>sub := sub p @ [signal t1]\<rparr> # gs)))"

subsection \<open>tRunner\<close>

text \<open>
  The deferred function of \<^verbatim>\<open>tRunner\<close>, in three parts. Lines 386 to 404:
  \<^verbatim>\<open>
  if len(t.sub) > 0 {
      t.suite.release()
      close(t.barrier)
      for _, sub := range t.sub { <-sub.signal }
      if !t.isParallel { t.suite.waitParallel() }
  } else if t.isParallel {
      t.suite.release()
  }
  \<close>
  \<open>joined\<close> is what the subtests have made of the units when the last of them has
  signalled; when they never do, the wait does not end.
\<close>

definition wait_subtests ::
  "(H list \<Rightarrow> H list option) \<Rightarrow> H list \<Rightarrow> unit outcome \<times> event list \<times> H list" where
  "wait_subtests joined ts =
     (case ts of
        [] \<Rightarrow> (Panics nil_dereference, [], [])
      | t # ps \<Rightarrow>
          if length (sub t) > 0
          then (let ev = [Release, CloseBarrier (barrier t)] @ map RecvSignal (sub t)
                in case joined ts of
                     Some (t' # ps') \<Rightarrow>
                       (Returns (), ev @ (if \<not> isParallel t' then [WaitParallel] else []), t' # ps')
                   | _ \<Rightarrow> (Blocks, ev, ts))
          else if isParallel t then (Returns (), [Release], ts)
          else (Returns (), [], ts))"

text \<open>
  Lines 409 to 413:
  \<^verbatim>\<open>
  t.done = true
  if t.parent != nil && !t.hasSub { t.setRan() }
  t.signal <- true
  \<close>
\<close>

definition signal_done :: "H list \<Rightarrow> unit outcome \<times> event list \<times> H list" where
  "signal_done ts =
     (case ts of
        [] \<Rightarrow> (Panics nil_dereference, [], [])
      | t # ps \<Rightarrow>
          (let t1 = t\<lparr>done := True\<rparr>
           in andThen (if ps \<noteq> [] \<and> \<not> hasSub t1 then quiet (setRan (t1 # ps))
                       else (Returns (), [], t1 # ps))
                (\<lambda>ts'. (Returns (), [SendSignal (signal t1)], ts'))))"

text \<open>
  The whole deferred function:
  \<^verbatim>\<open>
  defer func() {
      t.duration += time.Now().Sub(t.start)
      err := recover()
      if !t.finished && err == nil {
          err = fmt.Errorf("test executed panic(nil) or runtime.Goexit")
      }
      if err != nil {
          t.Fail()
          t.report()
          panic(err)
      }
      ... lines 386 to 404 ...
      t.report() // Report after all subtests have finished.
      ... lines 409 to 413 ...
  }()
  \<close>
  \<open>now\<close> is the reading of the clock and \<open>rec\<close> the value of \<^verbatim>\<open>recover()\<close>: \<open>None\<close>
  for nil (the body returned, or left through \<^verbatim>\<open>runtime.Goexit\<close>), and the value of
  the panic otherwise.
\<close>

definition tRunner_deferred ::
  "int \<Rightarrow> (H list \<Rightarrow> H list option) \<Rightarrow> string option \<Rightarrow> H list
   \<Rightarrow> unit outcome \<times> event list \<times> H list" where
  "tRunner_deferred now joined rec ts =
     (case ts of
        [] \<Rightarrow> (Panics nil_dereference, [], [])
      | t # ps \<Rightarrow>
          (let t1 = t\<lparr>duration := duration t + (now - start t)\<rparr>;
               err = (if \<not> finished t1 \<and> rec = None
                      then Some ''test executed panic(nil) or runtime.Goexit'' else rec)
           in case err of
                Some e \<Rightarrow>
                  andThen (quiet (Fail (t1 # ps)))
                    (\<lambda>ts1. andThen (quiet (report ts1))
                      (\<lambda>ts2. (Panics e, [], ts2)))
              | None \<Rightarrow>
                  andThen (wait_subtests joined (t1 # ps))
                    (\<lambda>ts1. andThen (quiet (report ts1)) signal_done)))"

text \<open>
  \<^verbatim>\<open>
  func tRunner(t *H, fn func(t *H)) {
      t.ctx, t.cancel = context.WithCancel(t.parentContext())
      defer t.cancel()
      defer func() { ... }()
      t.start = time.Now()
      fn(t)
      t.finished = true
  }
  \<close>
  The body \<open>fn\<close> is any function on the units with an outcome and events. The last
  line is reached when the body returns; a body that never ends keeps the deferred
  function from running.
\<close>

definition tRunner ::
  "int \<Rightarrow> int \<Rightarrow> (H list \<Rightarrow> H list option)
   \<Rightarrow> (H list \<Rightarrow> unit outcome \<times> event list \<times> H list) \<Rightarrow> H list
   \<Rightarrow> unit outcome \<times> event list \<times> H list" where
  "tRunner now0 now1 joined fn ts =
     (case ts of
        [] \<Rightarrow> (Panics nil_dereference, [], [])
      | t # ps \<Rightarrow>
          (case fn (t\<lparr>start := now0\<rparr> # ps) of
             (Returns u, ev, ts1) \<Rightarrow>
               (case tRunner_deferred now1 joined None
                       (case ts1 of [] \<Rightarrow> [] | t1 # ps1 \<Rightarrow> t1\<lparr>finished := True\<rparr> # ps1) of
                  (y, ev', ts2) \<Rightarrow> (y, ev @ ev', ts2))
           | (Goexit, ev, ts1) \<Rightarrow>
               (case tRunner_deferred now1 joined None ts1 of
                  (Returns u, ev', ts2) \<Rightarrow> (Goexit, ev @ ev', ts2)
                | (y, ev', ts2) \<Rightarrow> (y, ev @ ev', ts2))
           | (Panics e, ev, ts1) \<Rightarrow>
               (case tRunner_deferred now1 joined (Some e) ts1 of
                  (y, ev', ts2) \<Rightarrow> (y, ev @ ev', ts2))
           | (Blocks, ev, ts1) \<Rightarrow> (Blocks, ev, ts1)))"

subsection \<open>Run\<close>

text \<open>The loop \<^verbatim>\<open>for ; root.parent != nil; root = root.parent {}\<close> and the write to \<^verbatim>\<open>root.w\<close>.\<close>

fun write_root :: "string \<Rightarrow> H list \<Rightarrow> H list" where
  "write_root b [] = []"
| "write_root b (r # ps) = (if ps \<noteq> [] then r # write_root b ps else [Write_w r b])"

text \<open>
  \<^verbatim>\<open>
  func (t *H) Run(name string, f func(t *H)) bool {
      t.hasSub = true
      testName, ok := t.suite.match.fullName(t, name)
      if !ok { return true }
      t = &H{ barrier: make(chan bool), signal: make(chan bool), name: testName,
              suite: t.suite, parent: t, level: t.level + 1 }
      t.w = indenter{t}
      const indent = "        "
      t.logger = log.New(&t.output, indent, log.Lshortfile)
      if t.suite.opts.Verbose {
          root := t.parent
          for ; root.parent != nil; root = root.parent {}
          fmt.Fprintf(root.w, "=== RUN   %s\n", t.name)
      }
      go tRunner(t, f)
      <-t.signal
      return !t.failed
  }
  \<close>
  The matcher of the suite is declared outside this file: \<open>fullName\<close> is a parameter,
  as are the two new channels. The composite literal leaves every other field at its
  zero value. \<open>spawned\<close> is what the new goroutine (and all others) have made of the
  child and the units above it when a value arrives on the child's signal channel;
  when none arrives, \<^verbatim>\<open>Run\<close> does not return.
\<close>

definition new_H :: "H \<Rightarrow> string \<Rightarrow> chan \<Rightarrow> chan \<Rightarrow> H" where
  "new_H t testName new_barrier new_signal =
     \<lparr>output = [], w = indenter, tap = None, logger = ''        '',
      ran = False, failed = False, skipped = False, finished = False, done = False,
      hasSub = False, suite = suite t, level = level t + 1, name = testName,
      start = 0, duration = 0, barrier = new_barrier, signal = new_signal, sub = [],
      isParallel = False\<rparr>"

definition Run ::
  "(H list \<Rightarrow> string \<Rightarrow> string \<times> bool) \<Rightarrow> chan \<Rightarrow> chan \<Rightarrow> (H list \<Rightarrow> H list option)
   \<Rightarrow> string \<Rightarrow> H list \<Rightarrow> bool outcome \<times> event list \<times> H list" where
  "Run fullName new_barrier new_signal spawned nm ts =
     (case ts of
        [] \<Rightarrow> (Panics nil_dereference, [], [])
      | t # ps \<Rightarrow>
          (let t1 = t\<lparr>hasSub := True\<rparr>
           in case fullName (t1 # ps) nm of
                (testName, ok) \<Rightarrow>
                  if \<not> ok then (Returns True, [], t1 # ps)
                  else (let c = new_H t1 testName new_barrier new_signal;
                            ts1 = (if Verbose (opts (suite c))
                                   then write_root (''=== RUN   '' @ name c @ [newline]) (t1 # ps)
                                   else t1 # ps);
                            ev = [Go_tRunner (signal c), RecvSignal (signal c)]
                        in case spawned (c # ts1) of
                             Some (c' # t' # ps') \<Rightarrow> (Returns (\<not> failed c'), ev, t' # ps')
                           | _ \<Rightarrow> (Blocks, ev, ts1))))"

subsection \<open>The life of a unit\<close>

text \<open>
  \<open>evolves ts ts'\<close>: the functions of the file lead from the units \<open>ts\<close> to \<open>ts'\<close>.
  Each function above is one step. A step is taken on the unit itself, on a unit above
  it (\<open>ev_above\<close>: another goroutine, running an ancestor) or on a subtest below it, of
  which the units above see their part (\<open>ev_below\<close>); steps follow each other in any
  number and order. The body given to \<^verbatim>\<open>tRunner\<close> and the goroutines that \<^verbatim>\<open>Run\<close> and
  the deferred function wait for use the same functions, so what they do is again such
  a sequence of steps. \<^verbatim>\<open>Log\<close> and \<^verbatim>\<open>Logf\<close> are \<^verbatim>\<open>log\<close>; \<^verbatim>\<open>OutputDir\<close>, \<^verbatim>\<open>TempDir\<close> and
  \<^verbatim>\<open>TempFile\<close> change a unit only through \<^verbatim>\<open>log\<close> and \<^verbatim>\<open>FailNow\<close>.
\<close>

inductive evolves :: "H list \<Rightarrow> H list \<Rightarrow> bool" where
  ev_refl: "evolves ts ts"
| ev_trans: "evolves ts ts' \<Longrightarrow> evolves ts' ts'' \<Longrightarrow> evolves ts ts''"
| ev_above: "evolves ps ps' \<Longrightarrow> evolves (c # ps) (c # ps')"
| ev_below: "evolves (c # ts) (c' # ts') \<Longrightarrow> evolves ts ts'"
| ev_setRan: "evolves ts (snd (setRan ts))"
| ev_Fail: "evolves ts (snd (Fail ts))"
| ev_FailNow: "evolves ts (snd (FailNow ts))"
| ev_skip: "evolves ts (snd (skip ts))"
| ev_SkipNow: "evolves ts (snd (SkipNow ts))"
| ev_log: "evolves ts (snd (log loc s ts))"
| ev_Error: "evolves ts (snd (Error loc s ts))"
| ev_Fatal: "evolves ts (snd (Fatal loc s ts))"
| ev_Skip: "evolves ts (snd (Skip loc s ts))"
| ev_flushToParent: "evolves ts (snd (flushToParent header ts))"
| ev_report: "evolves ts (snd (report ts))"
| ev_Parallel: "evolves ts (snd (snd (Parallel now0 now1 ts)))"
| ev_deferred:
    "(\<And>xs ys. joined xs = Some ys \<Longrightarrow> evolves xs ys)
     \<Longrightarrow> evolves ts (snd (snd (tRunner_deferred now joined rec ts)))"
| ev_tRunner:
    "(\<And>xs. evolves xs (snd (snd (fn xs))))
     \<Longrightarrow> (\<And>xs ys. joined xs = Some ys \<Longrightarrow> evolves xs ys)
     \<Longrightarrow> evolves ts (snd (snd (tRunner now0 now1 joined fn ts)))"
| ev_Run:
    "(\<And>xs ys. spawned xs = Some ys \<Longrightarrow> evolves xs ys)
     \<Longrightarrow> evolves ts (snd (snd (Run fullName new_barrier new_signal spawned nm ts)))"

text \<open>
  What must hold between a unit before and after: \<^verbatim>\<open>failed\<close>, \<^verbatim>\<open>finished\<close> and
  \<^verbatim>\<open>isParallel\<close> stay set, and \<^verbatim>\<open>done\<close> implies \<^verbatim>\<open>finished\<close> afterwards if it did before.
\<close>

definition grows :: "H \<Rightarrow> H \<Rightarrow> bool" where
  "grows u u' \<longleftrightarrow>
     (failed u \<longrightarrow> failed u') \<and> (finished u \<longrightarrow> finished u') \<and>
     (isParallel u \<longrightarrow> isParallel u') \<and>
     ((done u \<longrightarrow> finished u) \<longrightarrow> (done u' \<longrightarrow> finished u'))"

subsection \<open>Units for the examples\<close>

text \<open>
  A root as a suite would make it: it writes to an external writer and to a TAP log,
  both empty so far. \<open>example_leaf\<close> is a subtest of it made by \<^verbatim>\<open>Run\<close>, and
  \<open>example_mid\<close> a subtest between the two.
\<close>

definition example_root :: H where
  "example_root =
     \<lparr>output = [], w = external [], tap = Some [], logger = [],
      ran = False, failed = False, skipped = False, finished = False, done = False,
      hasSub = False, suite = \<lparr>opts = \<lparr>Verbose = False\<rparr>\<rparr>, level = 0, name = ''root'',
      start = 0, duration = 0, barrier = 0, signal = 1, sub = [], isParallel = False\<rparr>"

definition example_mid :: H where
  "example_mid = new_H example_root ''mid'' 2 3"

definition example_leaf :: H where
  "example_leaf = new_H example_mid ''mid/leaf'' 4 5"

text \<open>
  A matcher for the examples: below the top level the name of the parent is put in
  front, and the name \<^verbatim>\<open>filtered\<close> is rejected. A body for the examples, which calls
  \<^verbatim>\<open>Error\<close> and returns, and the goroutine that runs it in \<^verbatim>\<open>tRunner\<close> from time 1 to
  time 8.
\<close>

definition example_fullName :: "H list \<Rightarrow> string \<Rightarrow> string \<times> bool" where
  "example_fullName ts nm =
     (case ts of
        [] \<Rightarrow> (nm, True)
      | t # ps \<Rightarrow> (if level t > 0 then name t @ ''/'' @ nm else nm, nm \<noteq> ''filtered''))"

definition example_body :: "H list \<Rightarrow> unit outcome \<times> event list \<times> H list" where
  "example_body ts = quiet (Error ''x_test.go:9'' ''boom'' ts)"

definition example_goroutine :: "H list \<Rightarrow> H list option" where
  "example_goroutine ts = Some (snd (snd (tRunner 1 8 Map.empty example_body ts)))"

section \<open>Properties\<close>

subsection \<open>Fail\<close>

lemma Fail_length: "length (snd (Fail ts)) = length ts"
  by (induction ts) (auto split: prod.splits outcome.splits)

lemma Fail_nonempty: "ts \<noteq> [] \<Longrightarrow> snd (Fail ts) \<noteq> []"
  using Fail_length [of ts] by auto

lemma Fail_no_done:
  "ts \<noteq> [] \<Longrightarrow> \<forall>u\<in>set ts. \<not> done u \<Longrightarrow>
   Fail ts = (Returns (), map (\<lambda>u. u\<lparr>failed := True\<rparr>) ts)"
  by (induction ts) auto

lemma Fail_outcome: "fst (Fail ts) = Returns () \<or> (\<exists>m. fst (Fail ts) = Panics m)"
  by (induction ts) (auto split: prod.splits outcome.splits)

lemma Fail_some_done: "\<exists>u\<in>set ts. done u \<Longrightarrow> \<exists>m. fst (Fail ts) = Panics m"
proof (induction ts)
  case Nil
  then show ?case by simp
next
  case (Cons c ps)
  show ?case
  proof (cases "\<exists>u\<in>set ps. done u")
    case True
    then obtain m where "fst (Fail ps) = Panics m" using Cons.IH by blast
    moreover from True have "ps \<noteq> []" by auto
    ultimately show ?thesis by (auto split: prod.splits outcome.splits)
  next
    case False
    with Cons.prems have "done c" by auto
    with Fail_outcome [of ps] show ?thesis
      by (auto split: prod.splits outcome.splits)
  qed
qed

lemma Fail_Returns_iff:
  "fst (Fail ts) = Returns () \<longleftrightarrow> ts \<noteq> [] \<and> (\<forall>u\<in>set ts. \<not> done u)"
proof
  assume r: "fst (Fail ts) = Returns ()"
  then have "ts \<noteq> []" by auto
  moreover have "\<forall>u\<in>set ts. \<not> done u"
  proof (rule ccontr)
    assume "\<not> (\<forall>u\<in>set ts. \<not> done u)"
    then have "\<exists>u\<in>set ts. done u" by simp
    then obtain m where "fst (Fail ts) = Panics m" using Fail_some_done by blast
    with r show False by simp
  qed
  ultimately show "ts \<noteq> [] \<and> (\<forall>u\<in>set ts. \<not> done u)" by simp
next
  assume "ts \<noteq> [] \<and> (\<forall>u\<in>set ts. \<not> done u)"
  then show "fst (Fail ts) = Returns ()" by (simp add: Fail_no_done)
qed

lemma Fail_idem: "Fail (snd (Fail ts)) = Fail ts"
proof (induction ts)
  case Nil
  then show ?case by simp
next
  case (Cons c ps)
  show ?case
  proof (cases "ps = []")
    case True
    then show ?thesis by auto
  next
    case False
    then have ne: "snd (Fail ps) \<noteq> []" by (rule Fail_nonempty)
    obtain x ps' where f: "Fail ps = (x, ps')" by (cases "Fail ps")
    with Cons.IH ne have g: "Fail ps' = (x, ps')" "ps' \<noteq> []" by auto
    show ?thesis using False f g
      by (auto split: outcome.splits)
  qed
qed

lemma Fail_done_unit:
  "done c \<Longrightarrow> \<forall>u\<in>set ps. \<not> done u \<Longrightarrow>
   Fail (c # ps) = (Panics (''Fail in goroutine after '' @ name c @ '' has completed''),
                    c # map (\<lambda>u. u\<lparr>failed := True\<rparr>) ps)"
  by (cases "ps = []") (simp_all add: Fail_no_done)

lemma Fail_done_above:
  "done p \<Longrightarrow> \<forall>u\<in>set gs. \<not> done u \<Longrightarrow>
   Fail (cs @ p # gs) =
     (Panics (''Fail in goroutine after '' @ name p @ '' has completed''),
      cs @ p # map (\<lambda>u. u\<lparr>failed := True\<rparr>) gs)"
proof (induction cs)
  case Nil
  then show ?case by (simp add: Fail_done_unit del: Fail.simps)
next
  case (Cons c cs)
  then show ?case by simp
qed

lemma not_done_above:
  "\<not> done c \<Longrightarrow> subtests_completed (c # ps) \<Longrightarrow> \<forall>u\<in>set (c # ps). \<not> done u"
  by (induction ps arbitrary: c) auto

text \<open>
  C4. Called on a unit that is not done, in a tree where no unit is done before its
  subtests, \<^verbatim>\<open>Fail\<close> returns and has set \<^verbatim>\<open>failed\<close> in the unit and in every unit above
  it up to the root, and changed nothing else. In any state it returns exactly when
  neither the unit nor a unit above it is done, with this effect. A second call ends as
  the first did and changes nothing more. On a unit that is done, \<^verbatim>\<open>Fail\<close> panics,
  which ends the process.
\<close>

theorem Fail_marks_unit_and_ancestors:
  "(\<forall>c ps. ts = c # ps \<and> \<not> done c \<and> subtests_completed ts \<longrightarrow>
      Fail ts = (Returns (), map (\<lambda>u. u\<lparr>failed := True\<rparr>) ts)) \<and>
   (fst (Fail ts) = Returns () \<longleftrightarrow> ts \<noteq> [] \<and> (\<forall>u\<in>set ts. \<not> done u)) \<and>
   (fst (Fail ts) = Returns () \<longrightarrow> snd (Fail ts) = map (\<lambda>u. u\<lparr>failed := True\<rparr>) ts) \<and>
   Fail (snd (Fail ts)) = Fail ts \<and>
   (\<forall>c ps. ts = c # ps \<and> done c \<longrightarrow> (\<exists>m. fst (Fail ts) = Panics m))"
proof (intro conjI)
  show "\<forall>c ps. ts = c # ps \<and> \<not> done c \<and> subtests_completed ts \<longrightarrow>
      Fail ts = (Returns (), map (\<lambda>u. u\<lparr>failed := True\<rparr>) ts)"
  proof (intro allI impI)
    fix c ps
    assume a: "ts = c # ps \<and> \<not> done c \<and> subtests_completed ts"
    then have "\<forall>u\<in>set ts. \<not> done u" using not_done_above [of c ps] by blast
    moreover from a have "ts \<noteq> []" by auto
    ultimately show "Fail ts = (Returns (), map (\<lambda>u. u\<lparr>failed := True\<rparr>) ts)"
      by (intro Fail_no_done)
  qed
  show "fst (Fail ts) = Returns () \<longleftrightarrow> ts \<noteq> [] \<and> (\<forall>u\<in>set ts. \<not> done u)"
    by (rule Fail_Returns_iff)
  show "fst (Fail ts) = Returns () \<longrightarrow> snd (Fail ts) = map (\<lambda>u. u\<lparr>failed := True\<rparr>) ts"
    by (simp add: Fail_Returns_iff Fail_no_done)
  show "Fail (snd (Fail ts)) = Fail ts"
    by (rule Fail_idem)
  show "\<forall>c ps. ts = c # ps \<and> done c \<longrightarrow> (\<exists>m. fst (Fail ts) = Panics m)"
  proof (intro allI impI)
    fix c ps
    assume "ts = c # ps \<and> done c"
    then have "\<exists>u\<in>set ts. done u" by auto
    then show "\<exists>m. fst (Fail ts) = Panics m" by (rule Fail_some_done)
  qed
qed

theorem Fail_marks_unit_and_ancestors_witness:
  "Fail [example_leaf, example_mid, example_root] =
     (Returns (), [example_leaf\<lparr>failed := True\<rparr>, example_mid\<lparr>failed := True\<rparr>,
                   example_root\<lparr>failed := True\<rparr>]) \<and>
   (\<exists>m. fst (Fail [example_leaf\<lparr>done := True\<rparr>, example_mid, example_root]) = Panics m)"
proof -
  have nd: "\<not> done example_leaf \<and> subtests_completed [example_leaf, example_mid, example_root]"
    by (simp add: example_leaf_def example_mid_def example_root_def new_H_def)
  from Fail_marks_unit_and_ancestors [of "[example_leaf, example_mid, example_root]"]
  have "\<forall>c ps. [example_leaf, example_mid, example_root] = c # ps \<and> \<not> done c \<and>
            subtests_completed [example_leaf, example_mid, example_root] \<longrightarrow>
          Fail [example_leaf, example_mid, example_root] =
            (Returns (), map (\<lambda>u. u\<lparr>failed := True\<rparr>) [example_leaf, example_mid, example_root])"
    by (rule conjunct1)
  with nd have a: "Fail [example_leaf, example_mid, example_root] =
     (Returns (), [example_leaf\<lparr>failed := True\<rparr>, example_mid\<lparr>failed := True\<rparr>,
                   example_root\<lparr>failed := True\<rparr>])"
    by (simp del: Fail.simps subtests_completed.simps)
  from Fail_marks_unit_and_ancestors
         [of "[example_leaf\<lparr>done := True\<rparr>, example_mid, example_root]"]
  have b: "\<exists>m. fst (Fail [example_leaf\<lparr>done := True\<rparr>, example_mid, example_root]) = Panics m"
    by simp
  from a b show ?thesis by simp
qed

text \<open>
  C10 as stated fails: with the unit and its parent both done, as they are when a tree
  has completed, the parent's call panics first and the parent is not marked.
\<close>

theorem Fail_done_ancestors_counterexample:
  "done (example_leaf\<lparr>done := True\<rparr>) \<and>
   subtests_completed
     [example_leaf\<lparr>done := True\<rparr>, example_mid\<lparr>done := True\<rparr>, example_root] \<and>
   Fail [example_leaf\<lparr>done := True\<rparr>, example_mid\<lparr>done := True\<rparr>, example_root] =
     (Panics ''Fail in goroutine after mid has completed'',
      [example_leaf\<lparr>done := True\<rparr>, example_mid\<lparr>done := True\<rparr>,
       example_root\<lparr>failed := True\<rparr>]) \<and>
   \<not> failed (example_mid\<lparr>done := True\<rparr>)"
  by (simp add: example_leaf_def example_mid_def example_root_def new_H_def)

text \<open>
  C10, amended. When \<^verbatim>\<open>Fail\<close> is called on a unit that is done and no unit above it is
  done, every unit above it is marked failed and the call then panics with the unit's
  own message, the unit itself unchanged.
\<close>

theorem Fail_done_marks_ancestors:
  "done c \<Longrightarrow> \<forall>u\<in>set ps. \<not> done u \<Longrightarrow>
   Fail (c # ps) =
     (Panics (''Fail in goroutine after '' @ name c @ '' has completed''),
      c # map (\<lambda>u. u\<lparr>failed := True\<rparr>) ps)"
  by (rule Fail_done_unit)

theorem Fail_done_marks_ancestors_witness:
  "Fail [example_leaf\<lparr>done := True\<rparr>, example_mid, example_root] =
     (Panics ''Fail in goroutine after mid/leaf has completed'',
      [example_leaf\<lparr>done := True\<rparr>, example_mid\<lparr>failed := True\<rparr>,
       example_root\<lparr>failed := True\<rparr>])"
proof -
  have d: "done (example_leaf\<lparr>done := True\<rparr>)" by simp
  have nd: "\<forall>u\<in>set [example_mid, example_root]. \<not> done u"
    by (simp add: example_mid_def example_root_def new_H_def)
  have nm: "name (example_leaf\<lparr>done := True\<rparr>) = ''mid/leaf''"
    by (simp add: example_leaf_def new_H_def)
  from Fail_done_marks_ancestors [OF d nd] nm show ?thesis by simp
qed

subsection \<open>Writers and the TAP log\<close>

lemma tap_Write_w [simp]: "tap (Write_w p b) = tap p"
  by (simp add: Write_w_def split: writer.splits)

lemma count_newline_filter:
  "newline \<notin> set s \<Longrightarrow> count_list (filter (\<lambda>x. x \<noteq> CHR ''#'') s) newline = 0"
  by (induction s) auto

text \<open>
  C7. When the parent has a TAP log, \<^verbatim>\<open>flushToParent\<close> appends to it exactly one of
  three texts: \<^verbatim>\<open>not ok - name\<close> for a failed unit (skipped or not), \<^verbatim>\<open>ok - name # SKIP\<close>
  for a skipped unit that has not failed, and \<^verbatim>\<open>ok - name\<close> otherwise, each ended by a
  newline, where the name is the unit's name without its \<^verbatim>\<open>#\<close> characters. For a name
  without a newline this is one line.
\<close>

theorem flushToParent_tap_line:
  assumes "tap p = Some written"
  shows "\<exists>c' p' nm.
           flushToParent header (c # p # ps) = (Returns (), c' # p' # ps) \<and>
           nm = filter (\<lambda>x. x \<noteq> CHR ''#'') (name c) \<and>
           CHR ''#'' \<notin> set nm \<and>
           tap p' = Some (written @
             (if failed c then ''not ok - '' @ nm @ [newline]
              else if skipped c then ''ok - '' @ nm @ '' # SKIP'' @ [newline]
              else ''ok - '' @ nm @ [newline])) \<and>
           (newline \<notin> set (name c) \<longrightarrow> count_list (tap_line c) newline = 1)"
proof -
  have "newline \<notin> set (name c) \<longrightarrow> count_list (tap_line c) newline = 1"
    by (simp add: tap_line_def Let_def count_newline_filter newline_def)
  with assms show ?thesis
    by (simp add: flushToParent_def Write_tap_def tap_line_def Let_def)
qed

theorem flushToParent_tap_line_witness:
  "\<exists>c' p'.
     flushToParent ''h'' [example_mid\<lparr>name := ''a#b#'', failed := True, skipped := True\<rparr>,
                          example_root] = (Returns (), [c', p']) \<and>
     tap p' = Some (''not ok - ab'' @ [newline])"
proof -
  have t: "tap example_root = Some []"
    by (simp add: example_root_def)
  from flushToParent_tap_line [OF t, of "''h''"
         "example_mid\<lparr>name := ''a#b#'', failed := True, skipped := True\<rparr>" "[]"]
  show ?thesis by auto
qed

subsection \<open>The status line\<close>

lemma digit_is_digit: "0 \<le> n \<Longrightarrow> n < 10 \<Longrightarrow> digit n \<in> set ''0123456789''"
proof -
  assume "0 \<le> n" "n < 10"
  then have "nat n < length ''0123456789''" by simp
  then have "''0123456789'' ! nat n \<in> set ''0123456789''" by (rule nth_mem)
  then show ?thesis by (simp only: digit_def)
qed

lemma decimal_digits:
  "0 \<le> n \<Longrightarrow> decimal n \<noteq> [] \<and> set (decimal n) \<subseteq> set ''0123456789''"
proof (induction n rule: decimal.induct)
  case (1 n)
  show ?case
  proof (cases "n < 10")
    case True
    with "1.prems" digit_is_digit [of n] show ?thesis
      by (subst (1 2) decimal.simps) simp
  next
    case False
    then have "0 \<le> n div 10" by simp
    with "1.IH" False have ih: "set (decimal (n div 10)) \<subseteq> set ''0123456789''" by blast
    have "digit (n mod 10) \<in> set ''0123456789''"
      by (rule digit_is_digit) simp_all
    with ih False show ?thesis
      by (subst (1 2) decimal.simps) simp
  qed
qed

lemma round_even_nonneg: "0 \<le> n \<Longrightarrow> 0 < d \<Longrightarrow> 0 \<le> round_even n d"
proof -
  assume "0 \<le> n" "0 < d"
  then have "0 \<le> n div d" by (simp add: pos_imp_zdiv_nonneg_iff)
  then show ?thesis by (simp add: round_even_def Let_def)
qed

lemma Sprintf_2f_shape:
  "\<exists>sign ip f1 f2.
     Sprintf_2f f = sign @ ip @ ''.'' @ [f1, f2] \<and>
     (sign = [] \<or> sign = ''-'') \<and> ip \<noteq> [] \<and> set ip \<subseteq> set ''0123456789'' \<and>
     f1 \<in> set ''0123456789'' \<and> f2 \<in> set ''0123456789''"
proof -
  obtain m k where f: "f = (m, k)" by (cases f)
  define c where "c = round_even (100 * \<bar>m\<bar>) (2 ^ k)"
  have c0: "0 \<le> c" unfolding c_def by (rule round_even_nonneg) simp_all
  then have "0 \<le> c div 100" by simp
  then have ip: "decimal (c div 100) \<noteq> [] \<and> set (decimal (c div 100)) \<subseteq> set ''0123456789''"
    by (rule decimal_digits)
  have "0 \<le> c mod 100 div 10" "c mod 100 div 10 < 10" by simp_all
  then have f1: "digit (c mod 100 div 10) \<in> set ''0123456789''" by (rule digit_is_digit)
  have "0 \<le> c mod 10" "c mod 10 < 10" by simp_all
  then have f2: "digit (c mod 10) \<in> set ''0123456789''" by (rule digit_is_digit)
  have "Sprintf_2f f = (if m < 0 then ''-'' else []) @ decimal (c div 100) @ ''.'' @
          [digit (c mod 100 div 10), digit (c mod 10)]"
    by (simp add: Sprintf_2f_def f c_def Let_def)
  with ip f1 f2 show ?thesis by (intro exI [of _ "if m < 0 then ''-'' else []"] exI conjI; (assumption | simp))
qed

lemma fmtDuration_shape:
  "\<exists>sign ip f1 f2.
     fmtDuration d = sign @ ip @ ''.'' @ [f1, f2] @ ''s'' \<and>
     (sign = [] \<or> sign = ''-'') \<and> ip \<noteq> [] \<and> set ip \<subseteq> set ''0123456789'' \<and>
     f1 \<in> set ''0123456789'' \<and> f2 \<in> set ''0123456789''"
proof -
  from Sprintf_2f_shape [of "Seconds d"] obtain sign ip f1 f2 where
    "Sprintf_2f (Seconds d) = sign @ ip @ ''.'' @ [f1, f2]"
    "sign = [] \<or> sign = ''-''" "ip \<noteq> []" "set ip \<subseteq> set ''0123456789''"
    "f1 \<in> set ''0123456789''" "f2 \<in> set ''0123456789''" by blast
  then show ?thesis
    by (intro exI [of _ sign] exI [of _ ip] exI [of _ f1] exI [of _ f2]) (simp add: fmtDuration_def)
qed

lemma fmtDuration_87: "fmtDuration 87000000000 = ''87.00s''"
  by code_simp

text \<open>
  C8. A root never reports. A unit with a parent that has failed reports \<^verbatim>\<open>FAIL\<close>; one
  that has not failed reports, when the suite is verbose, \<^verbatim>\<open>SKIP\<close> if it is skipped and
  \<^verbatim>\<open>PASS\<close> if not. To report is to write to the parent's writer the line
  \<^verbatim>\<open>--- STATUS: name (duration)\<close>, then the TAP line, then the unit's output. The
  duration is an optional minus sign, one or more digits, a point, two digits and \<^verbatim>\<open>s\<close>.
\<close>

theorem report_policy:
  "report [t] = (Returns (), [t]) \<and>
   (failed t \<longrightarrow>
      report (t # p # ps) =
        (Returns (),
         t\<lparr>output := []\<rparr> #
         Write_w (Write_tap t (Write_w p
           (''--- FAIL: '' @ name t @ '' ('' @ fmtDuration (duration t) @ '')'' @ [newline])))
           (output t) # ps)) \<and>
   (\<not> failed t \<and> Verbose (opts (suite t)) \<longrightarrow>
      report (t # p # ps) =
        (Returns (),
         t\<lparr>output := []\<rparr> #
         Write_w (Write_tap t (Write_w p
           (''--- '' @ (if skipped t then ''SKIP'' else ''PASS'') @ '': '' @ name t @
            '' ('' @ fmtDuration (duration t) @ '')'' @ [newline])))
           (output t) # ps)) \<and>
   (\<exists>sign ip f1 f2.
      fmtDuration (duration t) = sign @ ip @ ''.'' @ [f1, f2] @ ''s'' \<and>
      (sign = [] \<or> sign = ''-'') \<and> ip \<noteq> [] \<and> set ip \<subseteq> set ''0123456789'' \<and>
      f1 \<in> set ''0123456789'' \<and> f2 \<in> set ''0123456789'')"
proof (intro conjI)
  show "report [t] = (Returns (), [t])"
    by (simp add: report_def)
  show "failed t \<longrightarrow>
      report (t # p # ps) =
        (Returns (),
         t\<lparr>output := []\<rparr> #
         Write_w (Write_tap t (Write_w p
           (''--- FAIL: '' @ name t @ '' ('' @ fmtDuration (duration t) @ '')'' @ [newline])))
           (output t) # ps)"
    by (simp add: report_def flushToParent_def status_line_def Let_def)
  show "\<not> failed t \<and> Verbose (opts (suite t)) \<longrightarrow>
      report (t # p # ps) =
        (Returns (),
         t\<lparr>output := []\<rparr> #
         Write_w (Write_tap t (Write_w p
           (''--- '' @ (if skipped t then ''SKIP'' else ''PASS'') @ '': '' @ name t @
            '' ('' @ fmtDuration (duration t) @ '')'' @ [newline])))
           (output t) # ps)"
    by (simp add: report_def flushToParent_def status_line_def Let_def)
  show "\<exists>sign ip f1 f2.
      fmtDuration (duration t) = sign @ ip @ ''.'' @ [f1, f2] @ ''s'' \<and>
      (sign = [] \<or> sign = ''-'') \<and> ip \<noteq> [] \<and> set ip \<subseteq> set ''0123456789'' \<and>
      f1 \<in> set ''0123456789'' \<and> f2 \<in> set ''0123456789''"
    by (rule fmtDuration_shape)
qed

lemma indenter_Write_one_line:
  "newline \<notin> set s \<Longrightarrow> indenter_Write (s @ [newline]) = ''    '' @ s @ [newline]"
proof -
  assume n: "newline \<notin> set s"
  then have tw: "takeWhile (\<lambda>x. x \<noteq> newline) (s @ [newline]) = s"
    by (induction s) auto
  have e: "indenter_Write [] = []"
    by (subst indenter_Write.simps) simp
  show ?thesis
    by (subst indenter_Write.simps) (simp add: IndexByte_def tw e Let_def)
qed

theorem report_policy_witness:
  "report [example_leaf\<lparr>failed := True, duration := 87000000000\<rparr>, example_mid, example_root] =
     (Returns (),
      [example_leaf\<lparr>failed := True, duration := 87000000000\<rparr>,
       example_mid\<lparr>output := ''    --- FAIL: mid/leaf (87.00s)'' @ [newline]\<rparr>,
       example_root]) \<and>
   report [example_leaf\<lparr>skipped := True, suite := \<lparr>opts = \<lparr>Verbose = True\<rparr>\<rparr>\<rparr>, example_root] =
     (Returns (),
      [example_leaf\<lparr>skipped := True, suite := \<lparr>opts = \<lparr>Verbose = True\<rparr>\<rparr>\<rparr>,
       example_root\<lparr>w := external (''--- SKIP: mid/leaf (0.00s)'' @ [newline]),
                    tap := Some (''ok - mid/leaf # SKIP'' @ [newline])\<rparr>])"
proof -
  have d0: "fmtDuration 0 = ''0.00s''" by code_simp
  have l1: "indenter_Write (''--- FAIL: mid/leaf (87.00s)'' @ [newline]) =
              ''    '' @ ''--- FAIL: mid/leaf (87.00s)'' @ [newline]"
    by (rule indenter_Write_one_line) (simp add: newline_def)
  have e: "indenter_Write [] = []"
    by (subst indenter_Write.simps) simp
  have a: "failed (example_leaf\<lparr>failed := True, duration := 87000000000\<rparr>)" by simp
  have b: "\<not> failed (example_leaf\<lparr>skipped := True, suite := \<lparr>opts = \<lparr>Verbose = True\<rparr>\<rparr>\<rparr>) \<and>
           Verbose (opts (suite (example_leaf\<lparr>skipped := True, suite := \<lparr>opts = \<lparr>Verbose = True\<rparr>\<rparr>\<rparr>)))"
    by (simp add: example_leaf_def new_H_def)
  from report_policy [of "example_leaf\<lparr>failed := True, duration := 87000000000\<rparr>"
         example_mid "[example_root]"] a
  have 1: "report [example_leaf\<lparr>failed := True, duration := 87000000000\<rparr>, example_mid, example_root] =
     (Returns (),
      [example_leaf\<lparr>failed := True, duration := 87000000000\<rparr>,
       example_mid\<lparr>output := ''    --- FAIL: mid/leaf (87.00s)'' @ [newline]\<rparr>,
       example_root])"
    using l1 e
    by (simp add: fmtDuration_87 Write_w_def Write_tap_def example_leaf_def example_mid_def
          new_H_def)
  from report_policy [of "example_leaf\<lparr>skipped := True, suite := \<lparr>opts = \<lparr>Verbose = True\<rparr>\<rparr>\<rparr>"
         example_root "[]"] b
  have 2: "report [example_leaf\<lparr>skipped := True, suite := \<lparr>opts = \<lparr>Verbose = True\<rparr>\<rparr>\<rparr>, example_root] =
     (Returns (),
      [example_leaf\<lparr>skipped := True, suite := \<lparr>opts = \<lparr>Verbose = True\<rparr>\<rparr>\<rparr>,
       example_root\<lparr>w := external (''--- SKIP: mid/leaf (0.00s)'' @ [newline]),
                    tap := Some (''ok - mid/leaf # SKIP'' @ [newline])\<rparr>])"
    by (simp add: d0 Write_w_def Write_tap_def tap_line_def example_leaf_def example_mid_def
          example_root_def new_H_def)
  from 1 2 show ?thesis by simp
qed

subsection \<open>The deferred function of tRunner\<close>

lemma setRan_nonempty:
  "ts \<noteq> [] \<Longrightarrow> setRan ts = (Returns (), map (\<lambda>u. u\<lparr>ran := True\<rparr>) ts)"
  by (induction ts) auto

lemma signal_done_eq:
  "signal_done (t # ps) =
     (Returns (), [SendSignal (signal t)],
      if ps \<noteq> [] \<and> \<not> hasSub t then map (\<lambda>u. u\<lparr>ran := True\<rparr>) (t\<lparr>done := True\<rparr> # ps)
      else t\<lparr>done := True\<rparr> # ps)"
  by (simp add: signal_done_def andThen_def quiet_def setRan_nonempty Let_def del: setRan.simps)

text \<open>
  C9. For a unit with a parent that has not failed, in a suite that is not verbose,
  \<^verbatim>\<open>report\<close> changes nothing: no header and no output reach the parent's writer, nothing
  is added to the TAP log, and the unit keeps its buffer, skipped or not. The deferred
  function of \<^verbatim>\<open>tRunner\<close>, when the unit is in this state after the wait for its
  subtests, sets \<^verbatim>\<open>done\<close> (and \<^verbatim>\<open>ran\<close>) and changes nothing else.
\<close>

theorem report_silent:
  "\<not> failed t \<and> \<not> Verbose (opts (suite t)) \<longrightarrow>
     report (t # p # ps) = (Returns (), t # p # ps) \<and>
     (finished t0 \<and>
      wait_subtests joined (t0\<lparr>duration := duration t0 + (now - start t0)\<rparr> # ps0) =
        (Returns (), ev, t # p # ps) \<longrightarrow>
      tRunner_deferred now joined None (t0 # ps0) =
        (Returns (), ev @ [SendSignal (signal t)],
         if hasSub t then t\<lparr>done := True\<rparr> # p # ps
         else map (\<lambda>u. u\<lparr>ran := True\<rparr>) (t\<lparr>done := True\<rparr> # p # ps)))"
proof (intro impI conjI)
  assume a: "\<not> failed t \<and> \<not> Verbose (opts (suite t))"
  then show r: "report (t # p # ps) = (Returns (), t # p # ps)"
    by (simp add: report_def)
  assume b: "finished t0 \<and>
      wait_subtests joined (t0\<lparr>duration := duration t0 + (now - start t0)\<rparr> # ps0) =
        (Returns (), ev, t # p # ps)"
  then show "tRunner_deferred now joined None (t0 # ps0) =
        (Returns (), ev @ [SendSignal (signal t)],
         if hasSub t then t\<lparr>done := True\<rparr> # p # ps
         else map (\<lambda>u. u\<lparr>ran := True\<rparr>) (t\<lparr>done := True\<rparr> # p # ps))"
    by (simp add: tRunner_deferred_def Let_def andThen_def quiet_def r signal_done_eq)
qed

theorem report_silent_witness:
  "report [example_leaf\<lparr>skipped := True, output := ''note''\<rparr>, example_root] =
     (Returns (), [example_leaf\<lparr>skipped := True, output := ''note''\<rparr>, example_root]) \<and>
   tRunner_deferred 7 Map.empty None
       [example_leaf\<lparr>skipped := True, output := ''note'', finished := True\<rparr>, example_root] =
     (Returns (), [SendSignal 5],
      [example_leaf\<lparr>skipped := True, output := ''note'', finished := True, duration := 7,
                     done := True, ran := True\<rparr>,
       example_root\<lparr>ran := True\<rparr>])"
proof -
  have a: "\<not> failed (example_leaf\<lparr>skipped := True, output := ''note''\<rparr>) \<and>
           \<not> Verbose (opts (suite (example_leaf\<lparr>skipped := True, output := ''note''\<rparr>)))"
    by (simp add: example_leaf_def example_mid_def example_root_def new_H_def)
  from report_silent [where t = "example_leaf\<lparr>skipped := True, output := ''note''\<rparr>"
         and p = example_root and ps = "[]"] a
  have 1: "report [example_leaf\<lparr>skipped := True, output := ''note''\<rparr>, example_root] =
     (Returns (), [example_leaf\<lparr>skipped := True, output := ''note''\<rparr>, example_root])"
    by simp
  have b: "\<not> failed (example_leaf\<lparr>skipped := True, output := ''note'', finished := True, duration := 7\<rparr>) \<and>
           \<not> Verbose (opts (suite (example_leaf\<lparr>skipped := True, output := ''note'', finished := True, duration := 7\<rparr>)))"
    by (simp add: example_leaf_def example_mid_def example_root_def new_H_def)
  have c: "finished (example_leaf\<lparr>skipped := True, output := ''note'', finished := True\<rparr>) \<and>
      wait_subtests Map.empty
        ((example_leaf\<lparr>skipped := True, output := ''note'', finished := True\<rparr>)
           \<lparr>duration := duration (example_leaf\<lparr>skipped := True, output := ''note'', finished := True\<rparr>)
              + (7 - start (example_leaf\<lparr>skipped := True, output := ''note'', finished := True\<rparr>))\<rparr>
         # [example_root]) =
        (Returns (), [],
         [example_leaf\<lparr>skipped := True, output := ''note'', finished := True, duration := 7\<rparr>,
          example_root])"
    by (simp add: wait_subtests_def example_leaf_def example_mid_def example_root_def new_H_def)
  from report_silent [where t = "example_leaf\<lparr>skipped := True, output := ''note'', finished := True, duration := 7\<rparr>"
         and ?t0.0 = "example_leaf\<lparr>skipped := True, output := ''note'', finished := True\<rparr>"
         and joined = Map.empty and now = 7 and ?ps0.0 = "[example_root]" and ev = "[]"
         and p = example_root and ps = "[]"] b c
  have 2: "tRunner_deferred 7 Map.empty None
       [example_leaf\<lparr>skipped := True, output := ''note'', finished := True\<rparr>, example_root] =
     (Returns (), [SendSignal 5],
      [example_leaf\<lparr>skipped := True, output := ''note'', finished := True, duration := 7,
                     done := True, ran := True\<rparr>,
       example_root\<lparr>ran := True\<rparr>])"
    by (simp add: example_leaf_def example_mid_def example_root_def new_H_def)
  from 1 2 show ?thesis by simp
qed

lemma report_outcome: "ts \<noteq> [] \<Longrightarrow> fst (report ts) = Returns ()"
  by (cases ts rule: list.exhaust; simp add: report_def flushToParent_def Let_def split: list.splits)

lemma report_failed_root: "report [t] = (Returns (), [t])"
  by (simp add: report_def)

lemma report_failed_unit:
  "failed t \<Longrightarrow>
   report (t # p # ps) =
     (Returns (),
      t\<lparr>output := []\<rparr> #
      Write_w (Write_tap t (Write_w p
        (''--- FAIL: '' @ name t @ '' ('' @ fmtDuration (duration t) @ '')'' @ [newline])))
        (output t) # ps)"
  by (simp add: report_def flushToParent_def status_line_def Let_def)

lemma wait_subtests_outcome:
  "fst (wait_subtests joined (t # ps)) = Returns () \<or> fst (wait_subtests joined (t # ps)) = Blocks"
  by (simp add: wait_subtests_def Let_def split: option.splits list.splits)

lemma wait_subtests_nonempty: "snd (snd (wait_subtests joined (t # ps))) \<noteq> []"
  by (simp add: wait_subtests_def Let_def split: option.splits list.splits)

lemma signal_done_outcome: "fst (signal_done (t # ps)) = Returns ()"
  by (simp add: signal_done_eq)

text \<open>
  C1. When the body left through a panic, or ended without a panic and without
  \<^verbatim>\<open>finished\<close> set, the deferred function always ends in a panic. The unit is not done
  then (it becomes done at the end of this function); in a tree where no unit is done
  before its subtests, the function has by then marked the unit (and the units above
  it) failed and reported it: the \<^verbatim>\<open>FAIL\<close> line, the TAP line and the unit's buffered
  output are written to the parent's writer (a root has no parent and writes nothing),
  and the panic carries the recovered value, or the error
  \<^verbatim>\<open>test executed panic(nil) or runtime.Goexit\<close>. When the body ended without a panic and
  with \<^verbatim>\<open>finished\<close> set, the deferred function does not panic.
\<close>

theorem deferred_fault_is_fatal:
  "(rec \<noteq> None \<or> \<not> finished t \<longrightarrow>
      (\<exists>e. fst (tRunner_deferred now joined rec (t # ps)) = Panics e) \<and>
      (\<not> done t \<and> subtests_completed (t # ps) \<longrightarrow>
         tRunner_deferred now joined rec (t # ps) =
           (Panics (case rec of Some e \<Rightarrow> e
                    | None \<Rightarrow> ''test executed panic(nil) or runtime.Goexit''),
            [],
            case ps of
              [] \<Rightarrow> [t\<lparr>duration := duration t + (now - start t), failed := True\<rparr>]
            | p # gs \<Rightarrow>
                t\<lparr>duration := duration t + (now - start t), failed := True, output := []\<rparr> #
                Write_w (Write_tap (t\<lparr>duration := duration t + (now - start t), failed := True\<rparr>)
                  (Write_w (p\<lparr>failed := True\<rparr>)
                     (''--- FAIL: '' @ name t @ '' ('' @
                      fmtDuration (duration t + (now - start t)) @ '')'' @ [newline])))
                  (output t) #
                map (\<lambda>u. u\<lparr>failed := True\<rparr>) gs))) \<and>
   (rec = None \<and> finished t \<longrightarrow>
      (\<forall>e. fst (tRunner_deferred now joined rec (t # ps)) \<noteq> Panics e))"
proof (intro conjI impI)
  define t1 where "t1 = t\<lparr>duration := duration t + (now - start t)\<rparr>"
  define err where "err = (case rec of Some e \<Rightarrow> e
                           | None \<Rightarrow> ''test executed panic(nil) or runtime.Goexit'')"
  {
    assume f: "rec \<noteq> None \<or> \<not> finished t"
    then have d: "tRunner_deferred now joined rec (t # ps) =
        andThen (quiet (Fail (t1 # ps)))
          (\<lambda>ts1. andThen (quiet (report ts1)) (\<lambda>ts2. (Panics err, [], ts2)))"
      by (auto simp: tRunner_deferred_def t1_def err_def Let_def simp del: Fail.simps
            split: option.splits)
    show "\<exists>e. fst (tRunner_deferred now joined rec (t # ps)) = Panics e"
    proof (cases "fst (Fail (t1 # ps)) = Returns ()")
      case True
      have "snd (Fail (t1 # ps)) \<noteq> []" by (rule Fail_nonempty) simp
      then have "fst (report (snd (Fail (t1 # ps)))) = Returns ()" by (rule report_outcome)
      with True show ?thesis unfolding d
        by (cases "Fail (t1 # ps)"; cases "report (snd (Fail (t1 # ps)))")
           (simp add: andThen_def quiet_def del: Fail.simps)
    next
      case False
      with Fail_outcome [of "t1 # ps"] obtain m where "fst (Fail (t1 # ps)) = Panics m" by blast
      then show ?thesis unfolding d
        by (cases "Fail (t1 # ps)") (simp add: andThen_def quiet_def del: Fail.simps)
    qed
    {
      assume "\<not> done t \<and> subtests_completed (t # ps)"
      then have nd: "\<forall>u\<in>set (t # ps). \<not> done u" using not_done_above [of t ps] by blast
      then have "\<forall>u\<in>set (t1 # ps). \<not> done u" by (simp add: t1_def)
      then have F: "Fail (t1 # ps) = (Returns (), map (\<lambda>u. u\<lparr>failed := True\<rparr>) (t1 # ps))"
        by (intro Fail_no_done) simp_all
      show "tRunner_deferred now joined rec (t # ps) =
           (Panics (case rec of Some e \<Rightarrow> e
                    | None \<Rightarrow> ''test executed panic(nil) or runtime.Goexit''),
            [],
            case ps of
              [] \<Rightarrow> [t\<lparr>duration := duration t + (now - start t), failed := True\<rparr>]
            | p # gs \<Rightarrow>
                t\<lparr>duration := duration t + (now - start t), failed := True, output := []\<rparr> #
                Write_w (Write_tap (t\<lparr>duration := duration t + (now - start t), failed := True\<rparr>)
                  (Write_w (p\<lparr>failed := True\<rparr>)
                     (''--- FAIL: '' @ name t @ '' ('' @
                      fmtDuration (duration t + (now - start t)) @ '')'' @ [newline])))
                  (output t) #
                map (\<lambda>u. u\<lparr>failed := True\<rparr>) gs)"
      proof (cases ps)
        case Nil
        then show ?thesis unfolding d F
          by (simp add: andThen_def quiet_def report_failed_root t1_def err_def)
      next
        case (Cons p gs)
        then show ?thesis unfolding d F
          by (simp add: andThen_def quiet_def report_failed_unit t1_def err_def)
      qed
    }
  }
  {
    assume n: "rec = None \<and> finished t"
    then have d: "tRunner_deferred now joined rec (t # ps) =
        andThen (wait_subtests joined (t1 # ps))
          (\<lambda>ts1. andThen (quiet (report ts1)) signal_done)"
      by (simp add: tRunner_deferred_def t1_def Let_def)
    obtain x ev ts1 where w: "wait_subtests joined (t1 # ps) = (x, ev, ts1)"
      by (cases "wait_subtests joined (t1 # ps)")
    from wait_subtests_nonempty [of joined t1 ps] w have ne: "ts1 \<noteq> []" by simp
    from wait_subtests_outcome [of joined t1 ps] w have x: "x = Returns () \<or> x = Blocks" by simp
    from ne have r: "fst (report ts1) = Returns ()" by (rule report_outcome)
    obtain ts2 where r2: "report ts1 = (Returns (), ts2)"
      using r by (cases "report ts1") simp
    have "ts2 \<noteq> []"
      using r2 ne
      by (cases ts1 rule: list.exhaust)
         (auto simp: report_def flushToParent_def Let_def split: list.splits if_splits)
    then obtain t2 ps2 where "ts2 = t2 # ps2" by (cases ts2) auto
    with signal_done_outcome [of t2 ps2] have s: "fst (signal_done ts2) = Returns ()" by simp
    show "\<forall>e. fst (tRunner_deferred now joined rec (t # ps)) \<noteq> Panics e"
      using x w r2 s unfolding d
      by (cases "signal_done ts2") (auto simp: andThen_def quiet_def)
  }
qed

theorem deferred_fault_is_fatal_witness:
  "tRunner_deferred 7 Map.empty None
       [example_leaf\<lparr>output := ''ouch'' @ [newline]\<rparr>, example_mid, example_root] =
     (Panics ''test executed panic(nil) or runtime.Goexit'', [],
      [example_leaf\<lparr>duration := 7, failed := True\<rparr>,
       example_mid\<lparr>failed := True,
                   output := ''    --- FAIL: mid/leaf (0.00s)'' @ [newline] @
                             ''    ouch'' @ [newline]\<rparr>,
       example_root\<lparr>failed := True\<rparr>]) \<and>
   (\<forall>e. fst (tRunner_deferred 7 Map.empty None
               [example_leaf\<lparr>finished := True\<rparr>, example_mid, example_root]) \<noteq> Panics e)"
proof -
  have d: "fmtDuration 7 = ''0.00s''" by code_simp
  have l1: "indenter_Write (''--- FAIL: mid/leaf (0.00s)'' @ [newline]) =
              ''    '' @ ''--- FAIL: mid/leaf (0.00s)'' @ [newline]"
    by (rule indenter_Write_one_line) (simp add: newline_def)
  have l2: "indenter_Write (''ouch'' @ [newline]) = ''    '' @ ''ouch'' @ [newline]"
    by (rule indenter_Write_one_line) (simp add: newline_def)
  have nd: "\<not> done (example_leaf\<lparr>output := ''ouch'' @ [newline]\<rparr>) \<and>
            subtests_completed
              [example_leaf\<lparr>output := ''ouch'' @ [newline]\<rparr>, example_mid, example_root]"
    by (simp add: example_leaf_def example_mid_def example_root_def new_H_def)
  have nf: "\<not> finished (example_leaf\<lparr>output := ''ouch'' @ [newline]\<rparr>)"
    by (simp add: example_leaf_def new_H_def)
  from deferred_fault_is_fatal [where t = "example_leaf\<lparr>output := ''ouch'' @ [newline]\<rparr>"
         and ps = "[example_mid, example_root]" and rec = None and now = 7
         and joined = Map.empty] nd nf
  have 1: "tRunner_deferred 7 Map.empty None
       [example_leaf\<lparr>output := ''ouch'' @ [newline]\<rparr>, example_mid, example_root] =
     (Panics ''test executed panic(nil) or runtime.Goexit'', [],
      [example_leaf\<lparr>duration := 7, failed := True\<rparr>,
       example_mid\<lparr>failed := True,
                   output := ''    --- FAIL: mid/leaf (0.00s)'' @ [newline] @
                             ''    ouch'' @ [newline]\<rparr>,
       example_root\<lparr>failed := True\<rparr>])"
    using l1 l2
    by (simp add: d Write_w_def Write_tap_def example_leaf_def example_mid_def new_H_def)
  from deferred_fault_is_fatal [where t = "example_leaf\<lparr>finished := True\<rparr>"
         and ps = "[example_mid, example_root]" and rec = None and now = 7
         and joined = Map.empty]
  have 2: "\<forall>e. fst (tRunner_deferred 7 Map.empty None
               [example_leaf\<lparr>finished := True\<rparr>, example_mid, example_root]) \<noteq> Panics e"
    by simp
  from 1 2 show ?thesis by simp
qed

text \<open>
  C2. After a body that ended without a panic and with \<^verbatim>\<open>finished\<close> set, a unit with
  queued subtests releases its slot of the gate, closes its barrier once, receives from
  the signal channel of every queued subtest in turn, and then waits for a slot again
  exactly when it is not itself parallel; while a subtest has not signalled it does not
  get further. A unit without queued subtests releases its slot exactly when it is
  parallel. Then, in both cases, it reports and sends its own signal.
\<close>

theorem deferred_joins_subtests:
  "finished t \<longrightarrow>
     (sub t \<noteq> [] \<and>
      joined (t\<lparr>duration := duration t + (now - start t)\<rparr> # ps) = Some (t' # ps') \<longrightarrow>
        (\<exists>ts'. tRunner_deferred now joined None (t # ps) =
           (Returns (),
            [Release, CloseBarrier (barrier t)] @ map RecvSignal (sub t) @
            (if isParallel t' then [] else [WaitParallel]) @ [SendSignal (signal t')],
            ts'))) \<and>
     (sub t \<noteq> [] \<and>
      joined (t\<lparr>duration := duration t + (now - start t)\<rparr> # ps) = None \<longrightarrow>
        tRunner_deferred now joined None (t # ps) =
          (Blocks, [Release, CloseBarrier (barrier t)] @ map RecvSignal (sub t),
           t\<lparr>duration := duration t + (now - start t)\<rparr> # ps)) \<and>
     (sub t = [] \<longrightarrow>
        (\<exists>ts'. tRunner_deferred now joined None (t # ps) =
           (Returns (), (if isParallel t then [Release] else []) @ [SendSignal (signal t)],
            ts')))"
proof (intro impI conjI)
  define t1 where "t1 = t\<lparr>duration := duration t + (now - start t)\<rparr>"
  assume f: "finished t"
  then have d: "tRunner_deferred now joined None (t # ps) =
      andThen (wait_subtests joined (t1 # ps))
        (\<lambda>ts1. andThen (quiet (report ts1)) signal_done)"
    by (simp add: tRunner_deferred_def t1_def Let_def)
  have after: "\<exists>ts'. andThen (quiet (report (u # us))) signal_done =
                 (Returns (), [SendSignal (signal u)], ts')" for u us
  proof -
    have "\<exists>u' us'. report (u # us) = (Returns (), u' # us') \<and> signal u' = signal u"
      by (cases us) (auto simp: report_def flushToParent_def Let_def)
    then obtain u' us' where "report (u # us) = (Returns (), u' # us')" "signal u' = signal u"
      by blast
    then show ?thesis
      by (simp add: andThen_def quiet_def signal_done_eq)
  qed
  {
    assume a: "sub t \<noteq> [] \<and>
      joined (t\<lparr>duration := duration t + (now - start t)\<rparr> # ps) = Some (t' # ps')"
    then have w: "wait_subtests joined (t1 # ps) =
        (Returns (), [Release, CloseBarrier (barrier t)] @ map RecvSignal (sub t) @
           (if isParallel t' then [] else [WaitParallel]), t' # ps')"
      by (simp add: wait_subtests_def t1_def Let_def)
    from after [of t' ps'] obtain ts' where
      "andThen (quiet (report (t' # ps'))) signal_done =
         (Returns (), [SendSignal (signal t')], ts')" by blast
    then show "\<exists>ts'. tRunner_deferred now joined None (t # ps) =
           (Returns (),
            [Release, CloseBarrier (barrier t)] @ map RecvSignal (sub t) @
            (if isParallel t' then [] else [WaitParallel]) @ [SendSignal (signal t')],
            ts')"
      unfolding d w by (simp add: andThen_def)
  }
  {
    assume a: "sub t \<noteq> [] \<and>
      joined (t\<lparr>duration := duration t + (now - start t)\<rparr> # ps) = None"
    then show "tRunner_deferred now joined None (t # ps) =
          (Blocks, [Release, CloseBarrier (barrier t)] @ map RecvSignal (sub t),
           t\<lparr>duration := duration t + (now - start t)\<rparr> # ps)"
      unfolding d by (simp add: wait_subtests_def t1_def Let_def andThen_def)
  }
  {
    assume a: "sub t = []"
    then have w: "wait_subtests joined (t1 # ps) =
        (Returns (), (if isParallel t then [Release] else []), t1 # ps)"
      by (simp add: wait_subtests_def t1_def Let_def)
    from after [of t1 ps] obtain ts' where
      "andThen (quiet (report (t1 # ps))) signal_done =
         (Returns (), [SendSignal (signal t1)], ts')" by blast
    then show "\<exists>ts'. tRunner_deferred now joined None (t # ps) =
           (Returns (), (if isParallel t then [Release] else []) @ [SendSignal (signal t)],
            ts')"
      unfolding d w by (simp add: andThen_def t1_def)
  }
qed

theorem deferred_joins_subtests_witness:
  "(\<exists>ts'. tRunner_deferred 7 Some None
            [example_mid\<lparr>finished := True, sub := [5, 9]\<rparr>, example_root] =
      (Returns (),
       [Release, CloseBarrier 2, RecvSignal 5, RecvSignal 9, WaitParallel, SendSignal 3], ts')) \<and>
   (\<exists>ts'. tRunner_deferred 7 Some None
            [example_mid\<lparr>finished := True, sub := [5, 9], isParallel := True\<rparr>, example_root] =
      (Returns (), [Release, CloseBarrier 2, RecvSignal 5, RecvSignal 9, SendSignal 3], ts')) \<and>
   (\<exists>ts'. tRunner_deferred 7 Some None
            [example_mid\<lparr>finished := True, isParallel := True\<rparr>, example_root] =
      (Returns (), [Release, SendSignal 3], ts')) \<and>
   (\<exists>ts'. tRunner_deferred 7 Some None [example_mid\<lparr>finished := True\<rparr>, example_root] =
      (Returns (), [SendSignal 3], ts'))"
proof -
  have f: "finished (example_mid\<lparr>finished := True, sub := [5, 9]\<rparr>)"
          "finished (example_mid\<lparr>finished := True, sub := [5, 9], isParallel := True\<rparr>)"
          "finished (example_mid\<lparr>finished := True, isParallel := True\<rparr>)"
          "finished (example_mid\<lparr>finished := True\<rparr>)"
    by simp_all
  from deferred_joins_subtests [where t = "example_mid\<lparr>finished := True, sub := [5, 9]\<rparr>"
         and ps = "[example_root]" and joined = Some and now = 7
         and t' = "example_mid\<lparr>finished := True, sub := [5, 9], duration := 7\<rparr>"
         and ps' = "[example_root]"] f(1)
  have 1: "\<exists>ts'. tRunner_deferred 7 Some None
            [example_mid\<lparr>finished := True, sub := [5, 9]\<rparr>, example_root] =
      (Returns (),
       [Release, CloseBarrier 2, RecvSignal 5, RecvSignal 9, WaitParallel, SendSignal 3], ts')"
    by (simp add: example_mid_def example_root_def new_H_def)
  from deferred_joins_subtests
         [where t = "example_mid\<lparr>finished := True, sub := [5, 9], isParallel := True\<rparr>"
         and ps = "[example_root]" and joined = Some and now = 7
         and t' = "example_mid\<lparr>finished := True, sub := [5, 9], isParallel := True, duration := 7\<rparr>"
         and ps' = "[example_root]"] f(2)
  have 2: "\<exists>ts'. tRunner_deferred 7 Some None
            [example_mid\<lparr>finished := True, sub := [5, 9], isParallel := True\<rparr>, example_root] =
      (Returns (), [Release, CloseBarrier 2, RecvSignal 5, RecvSignal 9, SendSignal 3], ts')"
    by (simp add: example_mid_def example_root_def new_H_def)
  from deferred_joins_subtests
         [where t = "example_mid\<lparr>finished := True, isParallel := True\<rparr>"
         and ps = "[example_root]" and joined = Some and now = 7] f(3)
  have 3: "\<exists>ts'. tRunner_deferred 7 Some None
            [example_mid\<lparr>finished := True, isParallel := True\<rparr>, example_root] =
      (Returns (), [Release, SendSignal 3], ts')"
    by (simp add: example_mid_def example_root_def new_H_def)
  from deferred_joins_subtests
         [where t = "example_mid\<lparr>finished := True\<rparr>"
         and ps = "[example_root]" and joined = Some and now = 7] f(4)
  have 4: "\<exists>ts'. tRunner_deferred 7 Some None [example_mid\<lparr>finished := True\<rparr>, example_root] =
      (Returns (), [SendSignal 3], ts')"
    by (simp add: example_mid_def example_root_def new_H_def)
  from 1 2 3 4 show ?thesis by simp
qed

subsection \<open>The flags over the life of a unit\<close>

lemma grows_refl [simp]: "grows u u"
  by (simp add: grows_def)

lemma grows_trans: "grows a b \<Longrightarrow> grows b c \<Longrightarrow> grows a c"
  by (auto simp: grows_def)

lemma all_grow_refl [simp]: "list_all2 grows ts ts"
  by (simp add: list_all2_refl)

lemma all_grow_trans:
  "list_all2 grows as bs \<Longrightarrow> list_all2 grows bs cs \<Longrightarrow> list_all2 grows as cs"
  by (rule list_all2_trans [of grows grows grows]) (auto intro: grows_trans)

lemma flags_Write_w [simp]:
  "failed (Write_w p b) = failed p" "finished (Write_w p b) = finished p"
  "done (Write_w p b) = done p" "isParallel (Write_w p b) = isParallel p"
  by (simp_all add: Write_w_def split: writer.splits)

lemma flags_Write_tap [simp]:
  "failed (Write_tap c p) = failed p" "finished (Write_tap c p) = finished p"
  "done (Write_tap c p) = done p" "isParallel (Write_tap c p) = isParallel p"
  by (simp_all add: Write_tap_def split: option.splits)

lemma setRan_grows: "list_all2 grows ts (snd (setRan ts))"
  by (induction ts) (auto simp: grows_def split: prod.splits outcome.splits)

lemma Fail_grows: "list_all2 grows ts (snd (Fail ts))"
  by (induction ts) (auto simp: grows_def split: prod.splits outcome.splits)

lemma finish_head_grows:
  "list_all2 grows ts (c # ps) \<Longrightarrow> list_all2 grows ts (c\<lparr>finished := True\<rparr> # ps)"
proof -
  assume a: "list_all2 grows ts (c # ps)"
  have "list_all2 grows (c # ps) (c\<lparr>finished := True\<rparr> # ps)"
    by (simp add: grows_def)
  with a show ?thesis by (rule all_grow_trans)
qed

lemma FailNow_grows: "list_all2 grows ts (snd (FailNow ts))"
  using Fail_grows [of ts]
  by (auto simp: FailNow_def split: prod.splits outcome.splits list.splits
        intro: finish_head_grows simp del: Fail.simps)

lemma skip_grows: "list_all2 grows ts (snd (skip ts))"
  by (cases ts) (simp_all add: skip_def grows_def)

lemma SkipNow_grows: "list_all2 grows ts (snd (SkipNow ts))"
  using skip_grows [of ts]
  by (auto simp: SkipNow_def split: prod.splits outcome.splits list.splits
        intro: finish_head_grows)

lemma log_grows: "list_all2 grows ts (snd (log loc s ts))"
  by (cases ts) (simp_all add: log_def grows_def)

lemma Error_grows: "list_all2 grows ts (snd (Error loc s ts))"
  using log_grows [of ts loc s] Fail_grows [of "snd (log loc s ts)"]
  by (auto simp: Error_def split: prod.splits outcome.splits intro: all_grow_trans)

lemma Fatal_grows: "list_all2 grows ts (snd (Fatal loc s ts))"
  using log_grows [of ts loc s] FailNow_grows [of "snd (log loc s ts)"]
  by (auto simp: Fatal_def split: prod.splits outcome.splits intro: all_grow_trans)

lemma Skip_grows: "list_all2 grows ts (snd (Skip loc s ts))"
  using log_grows [of ts loc s] SkipNow_grows [of "snd (log loc s ts)"]
  by (auto simp: Skip_def split: prod.splits outcome.splits intro: all_grow_trans)

lemma flushToParent_grows: "list_all2 grows ts (snd (flushToParent header ts))"
  by (auto simp: flushToParent_def grows_def split: list.splits)

lemma report_grows: "list_all2 grows ts (snd (report ts))"
  by (auto simp: report_def Let_def flushToParent_grows split: list.splits)

lemma Parallel_grows: "list_all2 grows ts (snd (snd (Parallel now0 now1 ts)))"
  by (auto simp: Parallel_def Let_def grows_def split: list.splits)

lemma write_root_grows: "list_all2 grows ts (write_root b ts)"
  by (induction ts) (auto simp: grows_def)

lemma head_finished:
  "list_all2 grows (t # ps) ts' \<Longrightarrow> finished t \<Longrightarrow> \<exists>t' ps'. ts' = t' # ps' \<and> finished t'"
  by (cases ts') (auto simp: grows_def)

lemma signal_done_grows:
  "finished t \<Longrightarrow> list_all2 grows (t # ps) (snd (snd (signal_done (t # ps))))"
proof -
  assume f: "finished t"
  then have 1: "list_all2 grows (t # ps) (t\<lparr>done := True\<rparr> # ps)"
    by (simp add: grows_def)
  have "list_all2 grows (t\<lparr>done := True\<rparr> # ps) (map (\<lambda>u. u\<lparr>ran := True\<rparr>) (t\<lparr>done := True\<rparr> # ps))"
    by (simp add: list_all2_map2 grows_def list_all2_refl)
  with 1 have 2: "list_all2 grows (t # ps) (map (\<lambda>u. u\<lparr>ran := True\<rparr>) (t\<lparr>done := True\<rparr> # ps))"
    by (rule all_grow_trans)
  show ?thesis
  proof (cases "ps \<noteq> [] \<and> \<not> hasSub t")
    case True
    with 2 show ?thesis by (simp add: signal_done_eq)
  next
    case False
    with 1 show ?thesis by (auto simp: signal_done_eq)
  qed
qed

lemma wait_subtests_grows:
  assumes "\<And>xs ys. joined xs = Some ys \<Longrightarrow> list_all2 grows xs ys"
  shows "list_all2 grows ts (snd (snd (wait_subtests joined ts)))"
  using assms
  by (auto simp: wait_subtests_def Let_def split: list.splits option.splits)

lemma deferred_grows:
  assumes J: "\<And>xs ys. joined xs = Some ys \<Longrightarrow> list_all2 grows xs ys"
  shows "list_all2 grows ts (snd (snd (tRunner_deferred now joined rec ts)))"
proof (cases ts)
  case Nil
  then show ?thesis by (simp add: tRunner_deferred_def)
next
  case (Cons t ps)
  define t1 where "t1 = t\<lparr>duration := duration t + (now - start t)\<rparr>"
  have g1: "list_all2 grows ts (t1 # ps)"
    by (simp add: Cons t1_def grows_def)
  show ?thesis
  proof (cases "rec \<noteq> None \<or> \<not> finished t")
    case True
    define err where "err = (case rec of Some e \<Rightarrow> e
                             | None \<Rightarrow> ''test executed panic(nil) or runtime.Goexit'')"
    from True have d: "tRunner_deferred now joined rec ts =
        andThen (quiet (Fail (t1 # ps)))
          (\<lambda>ts1. andThen (quiet (report ts1)) (\<lambda>ts2. (Panics err, [], ts2)))"
      by (auto simp: Cons tRunner_deferred_def t1_def err_def Let_def simp del: Fail.simps
            split: option.splits)
    have "list_all2 grows (t1 # ps) (snd (Fail (t1 # ps)))" by (rule Fail_grows)
    with g1 have g2: "list_all2 grows ts (snd (Fail (t1 # ps)))" by (rule all_grow_trans)
    have "list_all2 grows (snd (Fail (t1 # ps))) (snd (report (snd (Fail (t1 # ps)))))"
      by (rule report_grows)
    with g2 have g3: "list_all2 grows ts (snd (report (snd (Fail (t1 # ps)))))"
      by (rule all_grow_trans)
    from g2 g3 show ?thesis unfolding d
      by (cases "Fail (t1 # ps)"; cases "report (snd (Fail (t1 # ps)))")
         (auto simp: andThen_def quiet_def split: outcome.splits simp del: Fail.simps)
  next
    case False
    then have f: "finished t1" and d: "tRunner_deferred now joined rec ts =
        andThen (wait_subtests joined (t1 # ps))
          (\<lambda>ts1. andThen (quiet (report ts1)) signal_done)"
      by (simp_all add: Cons tRunner_deferred_def t1_def Let_def)
    obtain x ev ts1 where w: "wait_subtests joined (t1 # ps) = (x, ev, ts1)"
      by (cases "wait_subtests joined (t1 # ps)")
    from wait_subtests_grows [of joined "t1 # ps"] J w
    have h1: "list_all2 grows (t1 # ps) ts1" by simp
    with g1 have g2: "list_all2 grows ts ts1" by (rule all_grow_trans)
    obtain y ts2 where r: "report ts1 = (y, ts2)" by (cases "report ts1")
    from report_grows [of ts1] r have h2: "list_all2 grows ts1 ts2" by simp
    with g2 have g3: "list_all2 grows ts ts2" by (rule all_grow_trans)
    from h1 h2 have "list_all2 grows (t1 # ps) ts2" by (rule all_grow_trans)
    with f obtain t2 ps2 where ts2: "ts2 = t2 # ps2" and f2: "finished t2"
      using head_finished by blast
    from signal_done_grows [OF f2, of ps2] ts2
    have "list_all2 grows ts2 (snd (snd (signal_done ts2)))" by simp
    with g3 have g4: "list_all2 grows ts (snd (snd (signal_done ts2)))" by (rule all_grow_trans)
    from g2 g3 g4 show ?thesis unfolding d w
      by (cases "signal_done ts2")
         (auto simp: andThen_def quiet_def r split: outcome.splits)
  qed
qed

lemma tRunner_state:
  "snd (snd (tRunner now0 now1 joined fn (t # ps))) =
     (case fn (t\<lparr>start := now0\<rparr> # ps) of
        (x, ev, ts1) \<Rightarrow>
          (case x of
             Returns u \<Rightarrow>
               snd (snd (tRunner_deferred now1 joined None
                 (case ts1 of [] \<Rightarrow> [] | t1 # ps1 \<Rightarrow> t1\<lparr>finished := True\<rparr> # ps1)))
           | Goexit \<Rightarrow> snd (snd (tRunner_deferred now1 joined None ts1))
           | Panics e \<Rightarrow> snd (snd (tRunner_deferred now1 joined (Some e) ts1))
           | Blocks \<Rightarrow> ts1))"
  by (simp add: tRunner_def split: prod.splits outcome.splits)

lemma tRunner_grows:
  assumes B: "\<And>xs. list_all2 grows xs (snd (snd (fn xs)))"
    and J: "\<And>xs ys. joined xs = Some ys \<Longrightarrow> list_all2 grows xs ys"
  shows "list_all2 grows ts (snd (snd (tRunner now0 now1 joined fn ts)))"
proof (cases ts)
  case Nil
  then show ?thesis by (simp add: tRunner_def)
next
  case (Cons t ps)
  obtain x ev ts1 where b: "fn (t\<lparr>start := now0\<rparr> # ps) = (x, ev, ts1)"
    by (cases "fn (t\<lparr>start := now0\<rparr> # ps)")
  have "list_all2 grows ts (t\<lparr>start := now0\<rparr> # ps)"
    by (simp add: Cons grows_def)
  moreover from B [of "t\<lparr>start := now0\<rparr> # ps"] b
  have "list_all2 grows (t\<lparr>start := now0\<rparr> # ps) ts1" by simp
  ultimately have g1: "list_all2 grows ts ts1" by (rule all_grow_trans)
  define ts2 where "ts2 = (case ts1 of [] \<Rightarrow> [] | t1 # ps1 \<Rightarrow> t1\<lparr>finished := True\<rparr> # ps1)"
  have "list_all2 grows ts1 ts2"
    by (cases ts1) (simp_all add: ts2_def grows_def)
  with g1 have g2: "list_all2 grows ts ts2" by (rule all_grow_trans)
  have D: "list_all2 grows ts (snd (snd (tRunner_deferred now1 joined r ys)))"
    if "list_all2 grows ts ys" for r ys
    using that deferred_grows [OF J, where ts = ys and now = now1 and rec = r]
    by (rule all_grow_trans)
  show ?thesis
  proof (cases x)
    case (Returns u)
    with D [OF g2, of None] show ?thesis
      by (simp add: Cons tRunner_state b ts2_def)
  next
    case Goexit
    with D [OF g1, of None] show ?thesis
      by (simp add: Cons tRunner_state b)
  next
    case (Panics e)
    with D [OF g1, of "Some e"] show ?thesis
      by (simp add: Cons tRunner_state b)
  next
    case Blocks
    with g1 show ?thesis
      by (simp add: Cons tRunner_state b)
  qed
qed

lemma Run_grows:
  assumes S: "\<And>xs ys. spawned xs = Some ys \<Longrightarrow> list_all2 grows xs ys"
  shows "list_all2 grows ts (snd (snd (Run fullName b s spawned nm ts)))"
proof (cases ts)
  case Nil
  then show ?thesis by (simp add: Run_def)
next
  case (Cons t ps)
  define t1 where "t1 = t\<lparr>hasSub := True\<rparr>"
  obtain testName ok where m: "fullName (t1 # ps) nm = (testName, ok)"
    by (cases "fullName (t1 # ps) nm")
  define c where "c = new_H t1 testName b s"
  define ts1 where "ts1 = (if Verbose (opts (suite c))
                           then write_root (''=== RUN   '' @ name c @ [newline]) (t1 # ps)
                           else t1 # ps)"
  have g1: "list_all2 grows ts (t1 # ps)"
    by (simp add: Cons t1_def grows_def)
  have "list_all2 grows (t1 # ps) ts1"
    by (simp add: ts1_def write_root_grows del: write_root.simps)
  with g1 have g2: "list_all2 grows ts ts1" by (rule all_grow_trans)
  have R: "Run fullName b s spawned nm ts =
      (if \<not> ok then (Returns True, [], t1 # ps)
       else case spawned (c # ts1) of
              Some (c' # t' # ps') \<Rightarrow>
                (Returns (\<not> failed c'), [Go_tRunner (signal c), RecvSignal (signal c)], t' # ps')
            | _ \<Rightarrow> (Blocks, [Go_tRunner (signal c), RecvSignal (signal c)], ts1))"
    using m unfolding ts1_def c_def t1_def
    by (simp add: Cons Run_def Let_def del: write_root.simps)
  show ?thesis
  proof (cases ok)
    case False
    with g1 show ?thesis by (simp add: R)
  next
    case True
    show ?thesis
    proof (cases "spawned (c # ts1)")
      case None
      with True g2 show ?thesis by (simp add: R)
    next
      case (Some ys)
      from S [OF Some] have h: "list_all2 grows (c # ts1) ys" .
      then obtain c' ts' where ys: "ys = c' # ts'" and h': "list_all2 grows ts1 ts'"
        by (cases ys) auto
      from g2 h' have g3: "list_all2 grows ts ts'" by (rule all_grow_trans)
      show ?thesis
      proof (cases ts')
        case Nil
        with True Some ys g2 show ?thesis by (simp add: R)
      next
        case (Cons t' ps')
        with True Some ys g3 show ?thesis by (simp add: R)
      qed
    qed
  qed
qed

lemma evolves_grows: "evolves ts ts' \<Longrightarrow> list_all2 grows ts ts'"
proof (induction rule: evolves.induct)
  case (ev_trans ts ts' ts'')
  then show ?case by (blast intro: all_grow_trans)
next
  case (ev_deferred joined ts now rec)
  then show ?case by (intro deferred_grows) blast
next
  case (ev_tRunner fn joined ts now0 now1)
  then show ?case by (intro tRunner_grows) blast+
next
  case (ev_Run spawned ts fullName new_barrier new_signal nm)
  then show ?case by (intro Run_grows) blast
qed (simp_all add: setRan_grows Fail_grows FailNow_grows skip_grows SkipNow_grows log_grows
       Error_grows Fatal_grows Skip_grows flushToParent_grows report_grows Parallel_grows
       del: setRan.simps Fail.simps)

text \<open>The example goroutine, run for a new subtest of \<open>example_mid\<close>.\<close>

lemma example_goroutine_run:
  "example_goroutine [new_H (example_mid\<lparr>hasSub := True\<rparr>) ''mid/leaf'' 6 7,
                      example_mid\<lparr>hasSub := True\<rparr>, example_root] =
     Some [(new_H (example_mid\<lparr>hasSub := True\<rparr>) ''mid/leaf'' 6 7)
             \<lparr>start := 1, duration := 7, failed := True, finished := True, done := True,
              ran := True\<rparr>,
           example_mid\<lparr>hasSub := True, failed := True, ran := True,
                       output := ''    --- FAIL: mid/leaf (0.00s)'' @ [newline] @
                                 ''            x_test.go:9: boom'' @ [newline]\<rparr>,
           example_root\<lparr>failed := True, ran := True\<rparr>]"
proof -
  have d: "fmtDuration 7 = ''0.00s''" by code_simp
  have l1: "indenter_Write (''--- FAIL: mid/leaf (0.00s)'' @ [newline]) =
              ''    '' @ ''--- FAIL: mid/leaf (0.00s)'' @ [newline]"
    by (rule indenter_Write_one_line) (simp add: newline_def)
  have l2: "indenter_Write (''        x_test.go:9: boom'' @ [newline]) =
              ''    '' @ ''        x_test.go:9: boom'' @ [newline]"
    by (rule indenter_Write_one_line) (simp add: newline_def)
  show ?thesis
    using l1 l2
    by (simp add: example_goroutine_def tRunner_def example_body_def Error_def log_def quiet_def
          tRunner_deferred_def wait_subtests_def andThen_def signal_done_def report_def
          flushToParent_def status_line_def Write_w_def Write_tap_def d Let_def
          example_mid_def example_root_def new_H_def newline_def)
qed

text \<open>
  C3. A unit made by \<^verbatim>\<open>Run\<close> starts with \<^verbatim>\<open>done\<close> false. Whatever the functions of the
  file do afterwards, called on the unit, on a unit above it or on a subtest below it,
  in any order and from any goroutine: the units stay the same in number, a unit that
  has failed stays failed, and if \<^verbatim>\<open>done\<close> implied \<^verbatim>\<open>finished\<close> in every unit before, it
  does so after.
\<close>

theorem done_implies_finished_failed_stays:
  "\<not> done (new_H t testName b s) \<and>
   (evolves ts ts' \<longrightarrow>
      length ts' = length ts \<and>
      (\<forall>i<length ts. failed (ts ! i) \<longrightarrow> failed (ts' ! i)) \<and>
      ((\<forall>u\<in>set ts. done u \<longrightarrow> finished u) \<longrightarrow> (\<forall>u\<in>set ts'. done u \<longrightarrow> finished u)))"
proof (intro conjI impI)
  show "\<not> done (new_H t testName b s)"
    by (simp add: new_H_def)
  assume "evolves ts ts'"
  then have g: "list_all2 grows ts ts'" by (rule evolves_grows)
  then show len: "length ts' = length ts"
    by (simp add: list_all2_lengthD)
  from g show "\<forall>i<length ts. failed (ts ! i) \<longrightarrow> failed (ts' ! i)"
    by (auto simp: list_all2_conv_all_nth grows_def)
  assume inv: "\<forall>u\<in>set ts. done u \<longrightarrow> finished u"
  show "\<forall>u\<in>set ts'. done u \<longrightarrow> finished u"
  proof
    fix u
    assume "u \<in> set ts'"
    then obtain i where i: "i < length ts'" "u = ts' ! i"
      by (auto simp: in_set_conv_nth)
    with len have "ts ! i \<in> set ts" by simp
    with inv have "done (ts ! i) \<longrightarrow> finished (ts ! i)" by blast
    moreover from g i len have "grows (ts ! i) u"
      by (simp add: list_all2_conv_all_nth)
    ultimately show "done u \<longrightarrow> finished u"
      by (simp add: grows_def)
  qed
qed

theorem done_implies_finished_failed_stays_witness:
  "evolves
     [new_H (example_mid\<lparr>hasSub := True\<rparr>) ''mid/leaf'' 6 7,
      example_mid\<lparr>hasSub := True\<rparr>, example_root]
     [(new_H (example_mid\<lparr>hasSub := True\<rparr>) ''mid/leaf'' 6 7)
        \<lparr>start := 1, duration := 7, failed := True, finished := True, done := True,
         ran := True\<rparr>,
      example_mid\<lparr>hasSub := True, failed := True, ran := True,
                  output := ''    --- FAIL: mid/leaf (0.00s)'' @ [newline] @
                            ''            x_test.go:9: boom'' @ [newline]\<rparr>,
      example_root\<lparr>failed := True, ran := True\<rparr>] \<and>
   done ((new_H (example_mid\<lparr>hasSub := True\<rparr>) ''mid/leaf'' 6 7)
           \<lparr>start := 1, duration := 7, failed := True, finished := True, done := True,
            ran := True\<rparr>) \<and>
   finished ((new_H (example_mid\<lparr>hasSub := True\<rparr>) ''mid/leaf'' 6 7)
           \<lparr>start := 1, duration := 7, failed := True, finished := True, done := True,
            ran := True\<rparr>)"
proof -
  let ?A = "[new_H (example_mid\<lparr>hasSub := True\<rparr>) ''mid/leaf'' 6 7,
             example_mid\<lparr>hasSub := True\<rparr>, example_root]"
  let ?B = "[(new_H (example_mid\<lparr>hasSub := True\<rparr>) ''mid/leaf'' 6 7)
               \<lparr>start := 1, duration := 7, failed := True, finished := True, done := True,
                ran := True\<rparr>,
             example_mid\<lparr>hasSub := True, failed := True, ran := True,
                         output := ''    --- FAIL: mid/leaf (0.00s)'' @ [newline] @
                                   ''            x_test.go:9: boom'' @ [newline]\<rparr>,
             example_root\<lparr>failed := True, ran := True\<rparr>]"
  have body: "evolves xs (snd (snd (example_body xs)))" for xs
    using ev_Error [of xs "''x_test.go:9''" "''boom''"]
    by (simp add: example_body_def quiet_def)
  have none: "(Map.empty :: H list \<Rightarrow> H list option) xs = Some ys \<Longrightarrow> evolves xs ys" for xs ys
    by simp
  have "evolves ?A (snd (snd (tRunner 1 8 Map.empty example_body ?A)))"
    using body none by (rule ev_tRunner)
  moreover from example_goroutine_run
  have "snd (snd (tRunner 1 8 Map.empty example_body ?A)) = ?B"
    by (simp add: example_goroutine_def)
  ultimately have e: "evolves ?A ?B" by simp
  have inv: "\<forall>u\<in>set ?A. done u \<longrightarrow> finished u"
    by (simp add: example_mid_def example_root_def new_H_def)
  from done_implies_finished_failed_stays [where ts = ?A and ts' = ?B] e inv
  have "\<forall>u\<in>set ?B. done u \<longrightarrow> finished u" by blast
  then have "done (hd ?B) \<longrightarrow> finished (hd ?B)" by simp
  with e show ?thesis by simp
qed

subsection \<open>Parallel and Run\<close>

text \<open>
  C6. On a unit that is already parallel, \<^verbatim>\<open>Parallel\<close> panics and changes nothing. On a
  unit with a parent that is not yet parallel it sets \<^verbatim>\<open>isParallel\<close>, adds the time since
  \<^verbatim>\<open>start\<close> to \<^verbatim>\<open>duration\<close>, appends the unit to the parent's \<^verbatim>\<open>sub\<close>, sends on the unit's
  signal channel, receives from the parent's barrier, waits for the gate, in this order,
  and sets \<^verbatim>\<open>start\<close> to the time read after that. After a first call, whatever the
  functions of the file have done since, a further call panics.
\<close>

theorem Parallel_once:
  "(isParallel t \<longrightarrow>
      Parallel now0 now1 (t # ps) =
        (Panics ''testing: t.Parallel called multiple times'', [], t # ps)) \<and>
   (\<not> isParallel t \<longrightarrow>
      Parallel now0 now1 (t # p # gs) =
        (Returns (),
         [SendSignal (signal t), RecvBarrier (barrier p), WaitParallel],
         t\<lparr>isParallel := True, duration := duration t + (now0 - start t), start := now1\<rparr> #
         p\<lparr>sub := sub p @ [signal t]\<rparr> # gs)) \<and>
   (evolves (snd (snd (Parallel now0 now1 (t # ps)))) ts' \<longrightarrow>
      (\<exists>t' ps'. ts' = t' # ps' \<and>
         Parallel now2 now3 ts' =
           (Panics ''testing: t.Parallel called multiple times'', [], t' # ps')))"
proof (intro conjI impI)
  show "Parallel now0 now1 (t # ps) =
          (Panics ''testing: t.Parallel called multiple times'', [], t # ps)"
    if "isParallel t"
    using that by (simp add: Parallel_def)
  show "Parallel now0 now1 (t # p # gs) =
        (Returns (),
         [SendSignal (signal t), RecvBarrier (barrier p), WaitParallel],
         t\<lparr>isParallel := True, duration := duration t + (now0 - start t), start := now1\<rparr> #
         p\<lparr>sub := sub p @ [signal t]\<rparr> # gs)"
    if "\<not> isParallel t"
    using that by (simp add: Parallel_def Let_def)
  assume "evolves (snd (snd (Parallel now0 now1 (t # ps)))) ts'"
  then have g: "list_all2 grows (snd (snd (Parallel now0 now1 (t # ps)))) ts'"
    by (rule evolves_grows)
  have "\<exists>t1 ps1. snd (snd (Parallel now0 now1 (t # ps))) = t1 # ps1 \<and> isParallel t1"
    by (cases ps) (simp_all add: Parallel_def Let_def)
  then obtain t1 ps1 where "snd (snd (Parallel now0 now1 (t # ps))) = t1 # ps1" "isParallel t1"
    by blast
  with g obtain t' ps' where "ts' = t' # ps'" "isParallel t'"
    by (cases ts') (auto simp: grows_def)
  then show "\<exists>t' ps'. ts' = t' # ps' \<and>
         Parallel now2 now3 ts' =
           (Panics ''testing: t.Parallel called multiple times'', [], t' # ps')"
    by (simp add: Parallel_def)
qed

theorem Parallel_once_witness:
  "Parallel 10 20 [example_leaf\<lparr>start := 4\<rparr>, example_mid, example_root] =
     (Returns (), [SendSignal 5, RecvBarrier 2, WaitParallel],
      [example_leaf\<lparr>isParallel := True, duration := 6, start := 20\<rparr>,
       example_mid\<lparr>sub := [5]\<rparr>, example_root]) \<and>
   Parallel 30 40 [example_leaf\<lparr>isParallel := True, duration := 6, start := 20\<rparr>,
                   example_mid\<lparr>sub := [5]\<rparr>, example_root] =
     (Panics ''testing: t.Parallel called multiple times'', [],
      [example_leaf\<lparr>isParallel := True, duration := 6, start := 20\<rparr>,
       example_mid\<lparr>sub := [5]\<rparr>, example_root]) \<and>
   (\<exists>t' ps'.
      snd (skip (snd (snd (Parallel 10 20 [example_leaf\<lparr>start := 4\<rparr>, example_mid,
                                          example_root])))) = t' # ps' \<and>
      Parallel 30 40 (snd (skip (snd (snd (Parallel 10 20 [example_leaf\<lparr>start := 4\<rparr>,
                                                         example_mid, example_root]))))) =
        (Panics ''testing: t.Parallel called multiple times'', [], t' # ps'))"
proof -
  have a: "\<not> isParallel (example_leaf\<lparr>start := 4\<rparr>)"
    by (simp add: example_leaf_def new_H_def)
  have b: "isParallel (example_leaf\<lparr>isParallel := True, duration := 6, start := 20\<rparr>)"
    by simp
  from Parallel_once [where t = "example_leaf\<lparr>start := 4\<rparr>" and p = example_mid
         and gs = "[example_root]" and ?now0.0 = 10 and ?now1.0 = 20] a
  have 1: "Parallel 10 20 [example_leaf\<lparr>start := 4\<rparr>, example_mid, example_root] =
     (Returns (), [SendSignal 5, RecvBarrier 2, WaitParallel],
      [example_leaf\<lparr>isParallel := True, duration := 6, start := 20\<rparr>,
       example_mid\<lparr>sub := [5]\<rparr>, example_root])"
    by (simp add: example_leaf_def example_mid_def new_H_def)
  from Parallel_once [where t = "example_leaf\<lparr>isParallel := True, duration := 6, start := 20\<rparr>"
         and ps = "[example_mid\<lparr>sub := [5]\<rparr>, example_root]"
         and ?now0.0 = 30 and ?now1.0 = 40] b
  have 2: "Parallel 30 40 [example_leaf\<lparr>isParallel := True, duration := 6, start := 20\<rparr>,
                   example_mid\<lparr>sub := [5]\<rparr>, example_root] =
     (Panics ''testing: t.Parallel called multiple times'', [],
      [example_leaf\<lparr>isParallel := True, duration := 6, start := 20\<rparr>,
       example_mid\<lparr>sub := [5]\<rparr>, example_root])"
    by simp
  have e: "evolves (snd (snd (Parallel 10 20 [example_leaf\<lparr>start := 4\<rparr>, example_mid,
                                              example_root])))
             (snd (skip (snd (snd (Parallel 10 20 [example_leaf\<lparr>start := 4\<rparr>, example_mid,
                                                   example_root])))))"
    by (rule ev_skip)
  from Parallel_once [where t = "example_leaf\<lparr>start := 4\<rparr>"
         and ps = "[example_mid, example_root]" and ?now0.0 = 10 and ?now1.0 = 20
         and ?now2.0 = 30 and ?now3.0 = 40
         and ts' = "snd (skip (snd (snd (Parallel 10 20 [example_leaf\<lparr>start := 4\<rparr>,
                                                        example_mid, example_root]))))"] e
  have 3: "\<exists>t' ps'.
      snd (skip (snd (snd (Parallel 10 20 [example_leaf\<lparr>start := 4\<rparr>, example_mid,
                                          example_root])))) = t' # ps' \<and>
      Parallel 30 40 (snd (skip (snd (snd (Parallel 10 20 [example_leaf\<lparr>start := 4\<rparr>,
                                                         example_mid, example_root]))))) =
        (Panics ''testing: t.Parallel called multiple times'', [], t' # ps')"
    by blast
  from 1 2 3 show ?thesis by blast
qed

text \<open>
  C5. \<^verbatim>\<open>Run\<close> sets \<^verbatim>\<open>hasSub\<close> in the parent. When the matcher rejects the name it
  returns true at once: no unit is made, no goroutine started, nothing received. When
  the matcher accepts, \<^verbatim>\<open>Run\<close> makes the child, prints the \<^verbatim>\<open>=== RUN\<close> line to the
  root's writer if the suite is verbose, starts \<^verbatim>\<open>tRunner\<close> for the child and receives
  from the child's signal channel; when a value arrives it returns true exactly if
  the child's \<^verbatim>\<open>failed\<close> is false then, and while none arrives it does not return.
\<close>

theorem Run_result:
  "(fullName (t\<lparr>hasSub := True\<rparr> # ps) nm = (testName, False) \<longrightarrow>
      Run fullName b s spawned nm (t # ps) = (Returns True, [], t\<lparr>hasSub := True\<rparr> # ps)) \<and>
   (fullName (t\<lparr>hasSub := True\<rparr> # ps) nm = (testName, True) \<and>
    spawned (new_H (t\<lparr>hasSub := True\<rparr>) testName b s #
             (if Verbose (opts (suite t))
              then write_root (''=== RUN   '' @ testName @ [newline]) (t\<lparr>hasSub := True\<rparr> # ps)
              else t\<lparr>hasSub := True\<rparr> # ps)) = Some (c' # t' # ps') \<longrightarrow>
      Run fullName b s spawned nm (t # ps) =
        (Returns (\<not> failed c'), [Go_tRunner s, RecvSignal s], t' # ps')) \<and>
   (fullName (t\<lparr>hasSub := True\<rparr> # ps) nm = (testName, True) \<and>
    spawned (new_H (t\<lparr>hasSub := True\<rparr>) testName b s #
             (if Verbose (opts (suite t))
              then write_root (''=== RUN   '' @ testName @ [newline]) (t\<lparr>hasSub := True\<rparr> # ps)
              else t\<lparr>hasSub := True\<rparr> # ps)) = None \<longrightarrow>
      fst (Run fullName b s spawned nm (t # ps)) = Blocks)"
  by (simp add: Run_def Let_def new_H_def)

theorem Run_result_witness:
  "Run example_fullName 6 7 example_goroutine ''filtered'' [example_mid, example_root] =
     (Returns True, [], [example_mid\<lparr>hasSub := True\<rparr>, example_root]) \<and>
   Run example_fullName 6 7 example_goroutine ''leaf'' [example_mid, example_root] =
     (Returns False, [Go_tRunner 7, RecvSignal 7],
      [example_mid\<lparr>hasSub := True, failed := True, ran := True,
                   output := ''    --- FAIL: mid/leaf (0.00s)'' @ [newline] @
                             ''            x_test.go:9: boom'' @ [newline]\<rparr>,
       example_root\<lparr>failed := True, ran := True\<rparr>]) \<and>
   fst (Run example_fullName 6 7 Map.empty ''leaf'' [example_mid, example_root]) = Blocks"
proof -
  have n1: "example_fullName (example_mid\<lparr>hasSub := True\<rparr> # [example_root]) ''filtered'' =
              (''mid/filtered'', False)"
    by (simp add: example_fullName_def example_mid_def example_root_def new_H_def)
  have n2: "example_fullName (example_mid\<lparr>hasSub := True\<rparr> # [example_root]) ''leaf'' =
              (''mid/leaf'', True)"
    by (simp add: example_fullName_def example_mid_def example_root_def new_H_def)
  have v: "\<not> Verbose (opts (suite example_mid))"
    by (simp add: example_mid_def example_root_def new_H_def)
  from Run_result [where fullName = example_fullName and t = example_mid
         and ps = "[example_root]" and nm = "''filtered''" and testName = "''mid/filtered''"
         and b = 6 and s = 7 and spawned = example_goroutine] n1
  have 1: "Run example_fullName 6 7 example_goroutine ''filtered'' [example_mid, example_root] =
     (Returns True, [], [example_mid\<lparr>hasSub := True\<rparr>, example_root])"
    by simp
  from Run_result [where fullName = example_fullName and t = example_mid
         and ps = "[example_root]" and nm = "''leaf''" and testName = "''mid/leaf''"
         and b = 6 and s = 7 and spawned = example_goroutine
         and c' = "(new_H (example_mid\<lparr>hasSub := True\<rparr>) ''mid/leaf'' 6 7)
             \<lparr>start := 1, duration := 7, failed := True, finished := True, done := True,
              ran := True\<rparr>"
         and t' = "example_mid\<lparr>hasSub := True, failed := True, ran := True,
                       output := ''    --- FAIL: mid/leaf (0.00s)'' @ [newline] @
                                 ''            x_test.go:9: boom'' @ [newline]\<rparr>"
         and ps' = "[example_root\<lparr>failed := True, ran := True\<rparr>]"] n2 v example_goroutine_run
  have 2: "Run example_fullName 6 7 example_goroutine ''leaf'' [example_mid, example_root] =
     (Returns False, [Go_tRunner 7, RecvSignal 7],
      [example_mid\<lparr>hasSub := True, failed := True, ran := True,
                   output := ''    --- FAIL: mid/leaf (0.00s)'' @ [newline] @
                             ''            x_test.go:9: boom'' @ [newline]\<rparr>,
       example_root\<lparr>failed := True, ran := True\<rparr>])"
    by simp
  from Run_result [where fullName = example_fullName and t = example_mid
         and ps = "[example_root]" and nm = "''leaf''" and testName = "''mid/leaf''"
         and b = 6 and s = 7 and spawned = Map.empty] n2
  have 3: "fst (Run example_fullName 6 7 Map.empty ''leaf'' [example_mid, example_root]) = Blocks"
    by simp
  from 1 2 3 show ?thesis by simp
qed

end
